theory Spec2Isabelle
  imports Main "HOL-Library.Word"
begin

text \<open>
  A shallow embedding of the live-chat relay: \<open>utils/config/db.js\<close> (\<open>connectDB\<close>),
  \<open>utils/model/message.js\<close> (\<open>messageSchema\<close> and the model \<open>Message\<close>), the
  submission endpoint (\<open>POST\<close>) and \<open>api/stream-messages/route.js\<close> (\<open>GET\<close> and its
  two listeners). The module \<open>db.js\<close> loads only when \<open>MONGO_URI\<close> is defined; the
  theory starts from there. What the code calls in its libraries (the JavaScript built-ins,
  mongoose, the change stream of the MongoDB driver, the controller of a ReadableStream,
  the abort signal) is modelled by its documented behaviour, stated where each definition
  stands.
\<close>

section \<open>JavaScript values used by the chat relay\<close>

text \<open>
  A JavaScript string is a sequence of UTF-16 code units. ASCII literals of the source are
  written \<open>js ''...''\<close>.
\<close>

type_synonym code_unit = "16 word"
type_synonym jsstring = "code_unit list"
type_synonym byte = "8 word"

definition js :: "string \<Rightarrow> jsstring" where
  "js s = map of_char s"

definition is_high_surrogate :: "code_unit \<Rightarrow> bool" where
  "is_high_surrogate c \<longleftrightarrow> 0xD800 \<le> unat c \<and> unat c \<le> 0xDBFF"

definition is_low_surrogate :: "code_unit \<Rightarrow> bool" where
  "is_low_surrogate c \<longleftrightarrow> 0xDC00 \<le> unat c \<and> unat c \<le> 0xDFFF"

text \<open>
  \<open>String.prototype.toWellFormed\<close>: every surrogate that is not half of a pair is
  replaced by U+FFFD. A string is well-formed when this changes nothing.
\<close>

fun toWellFormed :: "jsstring \<Rightarrow> jsstring" where
  "toWellFormed [] = []"
| "toWellFormed [c] = [if is_high_surrogate c \<or> is_low_surrogate c then 0xFFFD else c]"
| "toWellFormed (c # d # cs) =
     (if is_high_surrogate c \<and> is_low_surrogate d then c # d # toWellFormed cs
      else (if is_high_surrogate c \<or> is_low_surrogate c then 0xFFFD else c)
             # toWellFormed (d # cs))"

definition isWellFormed :: "jsstring \<Rightarrow> bool" where
  "isWellFormed s \<longleftrightarrow> toWellFormed s = s"

text \<open>
  \<open>String.prototype.trim\<close> (ECMAScript): strips WhiteSpace and LineTerminator code
  points from both ends. All of them lie in the Basic Multilingual Plane, so each is a
  single code unit.
\<close>

definition is_js_space :: "code_unit \<Rightarrow> bool" where
  "is_js_space c \<longleftrightarrow>
     unat c \<in> set [0x0009, 0x000A, 0x000B, 0x000C, 0x000D, 0x0020, 0x00A0, 0x1680,
                    0x2028, 0x2029, 0x202F, 0x205F, 0x3000, 0xFEFF]
     \<or> (0x2000 \<le> unat c \<and> unat c \<le> 0x200A)"

definition String_trim :: "jsstring \<Rightarrow> jsstring" where
  "String_trim s = rev (dropWhile is_js_space (rev (dropWhile is_js_space s)))"

text \<open>
  A number is held by what the code can observe of it: it is zero (\<open>0\<close> or \<open>-0\<close>,
  both print as \<open>0\<close>), or NaN, or any other number, held by the text that
  \<open>JSON.stringify\<close> writes for it (\<open>Number::toString\<close> of a finite number,
  \<open>null\<close> of an infinite one). The code does no arithmetic.
\<close>

datatype jsnumber = NumZero | NumNaN | NumOther jsstring

text \<open>
  The values the handlers touch: what \<open>req.json()\<close> can return (null, booleans,
  numbers, strings, arrays, objects), \<open>undefined\<close> for an absent property, and the two
  BSON objects a stored message carries, an ObjectId (held by its 24-digit hex text) and a
  Date (held by its \<open>toISOString()\<close> text); both have a \<open>toJSON\<close> that returns
  that text. An object is the list of its own properties in the order of their creation,
  with distinct keys.
\<close>

datatype jsval =
    JUndefined
  | JNull
  | JBool bool
  | JNum jsnumber
  | JStr jsstring
  | JObjectId jsstring
  | JDate jsstring
  | JArr "jsval list"
  | JObj "(jsstring \<times> jsval) list"

text \<open>ToBoolean, as \<open>!username\<close> applies it.\<close>

fun truthy :: "jsval \<Rightarrow> bool" where
  "truthy JUndefined = False"
| "truthy JNull = False"
| "truthy (JBool b) = b"
| "truthy (JNum n) = (case n of NumZero \<Rightarrow> False | NumNaN \<Rightarrow> False | NumOther t \<Rightarrow> True)"
| "truthy (JStr s) = (s \<noteq> [])"
| "truthy (JObjectId h) = True"
| "truthy (JDate t) = True"
| "truthy (JArr vs) = True"
| "truthy (JObj ps) = True"

text \<open>
  Reading a property that no prototype defines (\<open>username\<close>, \<open>content\<close>,
  \<open>_id\<close> here): the own property of an object, \<open>undefined\<close> otherwise.
\<close>

fun js_get :: "jsval \<Rightarrow> jsstring \<Rightarrow> jsval" where
  "js_get (JObj ps) k = (case map_of ps k of None \<Rightarrow> JUndefined | Some v \<Rightarrow> v)"
| "js_get v k = JUndefined"

subsection \<open>\<open>JSON.stringify\<close>\<close>

definition hex_digit :: "nat \<Rightarrow> code_unit" where
  "hex_digit d = (if d < 10 then of_nat (48 + d) else of_nat (87 + d))"

text \<open>UnicodeEscape: a backslash, \<open>u\<close> and four lower-case hex digits.\<close>

definition unicode_escape :: "code_unit \<Rightarrow> jsstring" where
  "unicode_escape c =
     (let n = unat c in
      [0x5C, 0x75] @ [hex_digit (n div 4096), hex_digit (n div 256 mod 16),
                      hex_digit (n div 16 mod 16), hex_digit (n mod 16)])"

text \<open>
  QuoteJSONString on one code point that is not a surrogate pair: the two-character
  escapes for backspace, tab, line feed, form feed, carriage return, the double quote and
  the backslash; a \<open>\u\<close> escape for the other control characters and for a lone
  surrogate; the code unit itself otherwise.
\<close>

definition quote_unit :: "code_unit \<Rightarrow> jsstring" where
  "quote_unit c =
     (if unat c = 0x08 then [0x5C, 0x62]
      else if unat c = 0x09 then [0x5C, 0x74]
      else if unat c = 0x0A then [0x5C, 0x6E]
      else if unat c = 0x0C then [0x5C, 0x66]
      else if unat c = 0x0D then [0x5C, 0x72]
      else if unat c = 0x22 then [0x5C, 0x22]
      else if unat c = 0x5C then [0x5C, 0x5C]
      else if unat c < 0x20 \<or> is_high_surrogate c \<or> is_low_surrogate c then unicode_escape c
      else [c])"

fun quote_units :: "jsstring \<Rightarrow> jsstring" where
  "quote_units [] = []"
| "quote_units [c] = quote_unit c"
| "quote_units (c # d # cs) =
     (if is_high_surrogate c \<and> is_low_surrogate d then c # d # quote_units cs
      else quote_unit c @ quote_units (d # cs))"

definition QuoteJSONString :: "jsstring \<Rightarrow> jsstring" where
  "QuoteJSONString s = [0x22] @ quote_units s @ [0x22]"

text \<open>The text \<open>JSON.stringify\<close> writes for a number.\<close>

fun SerializeJSONNumber :: "jsnumber \<Rightarrow> jsstring" where
  "SerializeJSONNumber NumZero = js ''0''"
| "SerializeJSONNumber NumNaN = js ''null''"
| "SerializeJSONNumber (NumOther t) = t"

text \<open>
  The order in which JavaScript enumerates the properties of an object, which
  \<open>JSON.stringify\<close> follows: the keys that are array indices (the canonical decimal
  text of an integer from 0 to \<open>2^32 - 2\<close>) in ascending numeric order, then the other
  keys in the order of their creation.
\<close>

definition is_digit :: "code_unit \<Rightarrow> bool" where
  "is_digit c \<longleftrightarrow> 0x30 \<le> unat c \<and> unat c \<le> 0x39"

definition decimal_value :: "jsstring \<Rightarrow> nat" where
  "decimal_value k = foldl (\<lambda>n c. 10 * n + (unat c - 0x30)) 0 k"

definition array_index :: "jsstring \<Rightarrow> nat option" where
  "array_index k =
     (if k \<noteq> [] \<and> list_all is_digit k \<and> (length k = 1 \<or> unat (hd k) \<noteq> 0x30)
         \<and> decimal_value k < 4294967295
      then Some (decimal_value k) else None)"

definition EnumerableOwnProperties :: "(jsstring \<times> 'a) list \<Rightarrow> (jsstring \<times> 'a) list" where
  "EnumerableOwnProperties ps =
     sort_key (\<lambda>p. case array_index (fst p) of Some n \<Rightarrow> n | None \<Rightarrow> 0)
       (filter (\<lambda>p. array_index (fst p) \<noteq> None) ps)
     @ filter (\<lambda>p. array_index (fst p) = None) ps"

fun join :: "jsstring \<Rightarrow> jsstring list \<Rightarrow> jsstring" where
  "join sep [] = []"
| "join sep [x] = x"
| "join sep (x # y # ys) = x @ sep @ join sep (y # ys)"

text \<open>
  SerializeJSONProperty with no replacer and no indentation. \<open>SerializeJSONObject\<close>
  gives, for each property whose value does not serialize to \<open>undefined\<close>, the key
  and the member text (the quoted key, a colon and the value); the object's text joins
  the member texts in the order of enumeration. In an array \<open>undefined\<close> is written
  \<open>null\<close>.
\<close>

fun SerializeJSONProperty :: "jsval \<Rightarrow> jsstring option"
  and SerializeJSONArray :: "jsval list \<Rightarrow> jsstring list"
  and SerializeJSONObject :: "(jsstring \<times> jsval) list \<Rightarrow> (jsstring \<times> jsstring) list"
where
  "SerializeJSONProperty JUndefined = None"
| "SerializeJSONProperty JNull = Some (js ''null'')"
| "SerializeJSONProperty (JBool b) = Some (if b then js ''true'' else js ''false'')"
| "SerializeJSONProperty (JNum n) = Some (SerializeJSONNumber n)"
| "SerializeJSONProperty (JStr s) = Some (QuoteJSONString s)"
| "SerializeJSONProperty (JObjectId h) = Some (QuoteJSONString h)"
| "SerializeJSONProperty (JDate t) = Some (QuoteJSONString t)"
| "SerializeJSONProperty (JArr vs) =
     Some (js ''['' @ join (js '','') (SerializeJSONArray vs) @ js '']'')"
| "SerializeJSONProperty (JObj ps) =
     Some (js ''{''
           @ join (js '','') (map snd (EnumerableOwnProperties (SerializeJSONObject ps)))
           @ js ''}'')"
| "SerializeJSONArray [] = []"
| "SerializeJSONArray (v # vs) =
     (case SerializeJSONProperty v of None \<Rightarrow> js ''null'' | Some s \<Rightarrow> s)
       # SerializeJSONArray vs"
| "SerializeJSONObject [] = []"
| "SerializeJSONObject ((k, v) # ps) =
     (case SerializeJSONProperty v of
        None \<Rightarrow> SerializeJSONObject ps
      | Some s \<Rightarrow> (k, QuoteJSONString k @ js '':'' @ s) # SerializeJSONObject ps)"

definition JSON_stringify :: "jsval \<Rightarrow> jsstring option" where
  "JSON_stringify v = SerializeJSONProperty v"

text \<open>A template literal applies ToString to the hole: \<open>undefined\<close> prints as such.\<close>

definition template_hole :: "jsstring option \<Rightarrow> jsstring" where
  "template_hole r = (case r of None \<Rightarrow> js ''undefined'' | Some s \<Rightarrow> s)"

subsection \<open>\<open>TextEncoder.encode\<close>\<close>

definition utf8_code_point :: "nat \<Rightarrow> byte list" where
  "utf8_code_point n =
     (if n < 0x80 then [of_nat n]
      else if n < 0x800 then [of_nat (0xC0 + n div 64), of_nat (0x80 + n mod 64)]
      else if n < 0x10000 then
        [of_nat (0xE0 + n div 4096), of_nat (0x80 + n div 64 mod 64), of_nat (0x80 + n mod 64)]
      else
        [of_nat (0xF0 + n div 262144), of_nat (0x80 + n div 4096 mod 64),
         of_nat (0x80 + n div 64 mod 64), of_nat (0x80 + n mod 64)])"

text \<open>
  UTF-8 of the string read as UTF-16: a surrogate pair is one code point, a lone
  surrogate is replaced by U+FFFD.
\<close>

definition scalar_value :: "code_unit \<Rightarrow> nat" where
  "scalar_value c = (if is_high_surrogate c \<or> is_low_surrogate c then 0xFFFD else unat c)"

fun TextEncoder_encode :: "jsstring \<Rightarrow> byte list" where
  "TextEncoder_encode [] = []"
| "TextEncoder_encode [c] = utf8_code_point (scalar_value c)"
| "TextEncoder_encode (c # d # cs) =
     (if is_high_surrogate c \<and> is_low_surrogate d
      then utf8_code_point (0x10000 + (unat c - 0xD800) * 1024 + (unat d - 0xDC00))
             @ TextEncoder_encode cs
      else utf8_code_point (scalar_value c) @ TextEncoder_encode (d # cs))"

section \<open>Outcomes and the process state\<close>

text \<open>
  A call returns, throws (an \<open>await\<close> on a rejected promise throws too), or ends the
  process with \<open>process.exit\<close>.
\<close>

datatype exn =
    TypeError
  | SyntaxError
  | ValidationError "jsstring list"
  | MongoServerError

datatype 'a outcome = Returned 'a | Threw exn | Exited nat

datatype console_line = ConsoleLog jsstring | ConsoleError jsstring

text \<open>
  A change event as the handler reads it: its \<open>operationType\<close> and its
  \<open>fullDocument\<close> (\<open>undefined\<close> where the event carries none).
\<close>

record change_event =
  operationType :: jsstring
  fullDocument :: jsval

text \<open>
  The state outside the handlers: the mongoose connection (\<open>readyState\<close> is 0
  disconnected, 1 connected, 2 connecting, 3 disconnecting; \<open>connect_calls\<close> counts the
  calls of \<open>mongoose.connect\<close>), the messages collection, the change events the store
  has emitted for it in commit order, and the console.
\<close>

record world =
  readyState :: nat
  strictQuery :: bool
  connect_calls :: nat
  collection :: "jsval list"
  change_feed :: "change_event list"
  console :: "console_line list"

text \<open>
  What the environment decides during a call: whether \<open>mongoose.connect\<close> resolves,
  whether the store accepts an insert, the ObjectId and the timestamp it generates, and
  mongoose's cast of a value that is not a string to a string (\<open>None\<close> is a CastError).
\<close>

record env =
  connect_ok :: bool
  insert_ok :: bool
  new_ObjectId :: jsstring
  Date_now :: jsstring
  castString :: "jsval \<Rightarrow> jsstring option"

section \<open>utils/config/db.js\<close>

definition console_log :: "jsstring \<Rightarrow> world \<Rightarrow> world" where
  "console_log line w = w\<lparr>console := console w @ [ConsoleLog line]\<rparr>"

definition console_error :: "jsstring \<Rightarrow> world \<Rightarrow> world" where
  "console_error line w = w\<lparr>console := console w @ [ConsoleError line]\<rparr>"

text \<open>
  \<open>connectDB\<close> up to its \<open>await\<close>: the early return when \<open>readyState >= 1\<close>, or
  \<open>strictQuery\<close> set and \<open>mongoose.connect\<close> called, which puts the connection in
  state 2 (connecting). The flag says whether the call is now waiting for the connection.
\<close>

definition connectDB_begin :: "world \<Rightarrow> bool \<times> world" where
  "connectDB_begin w =
     (if readyState w \<ge> 1
      then (False, console_log (js ''Already connected to the database.'') w)
      else (True, w\<lparr>readyState := 2, strictQuery := True,
                      connect_calls := connect_calls w + 1\<rparr>))"

text \<open>
  \<open>connectDB\<close> after its \<open>await\<close>: the connection is open (state 1) and the success
  line is logged, or \<open>mongoose.connect\<close> rejected (state 0) and the \<open>catch\<close> block logs
  the error and calls \<open>process.exit(1)\<close>.
\<close>

definition connectDB_resume :: "env \<Rightarrow> world \<Rightarrow> unit outcome \<times> world" where
  "connectDB_resume e w =
     (if connect_ok e
      then (Returned (), console_log (js ''Database connected'') (w\<lparr>readyState := 1\<rparr>))
      else (Exited 1,
            console_error (js ''Error connecting to the database:'') (w\<lparr>readyState := 0\<rparr>)))"

text \<open>The awaited call, \<open>await connectDB()\<close>.\<close>

definition connectDB :: "env \<Rightarrow> world \<Rightarrow> unit outcome \<times> world" where
  "connectDB e w =
     (case connectDB_begin w of
        (False, w') \<Rightarrow> (Returned (), w')
      | (True, w') \<Rightarrow> connectDB_resume e w')"

section \<open>utils/model/message.js\<close>

text \<open>
  A mongoose schema whose paths are all of type String, with the two options the source
  sets on them, and the schema option \<open>timestamps\<close>.
\<close>

record path_options =
  required :: bool
  trim :: bool

record schema =
  paths :: "(jsstring \<times> path_options) list"
  timestamps :: bool

definition messageSchema :: schema where
  "messageSchema =
     \<lparr>paths = [(js ''username'', \<lparr>required = True, trim = True\<rparr>),
               (js ''content'', \<lparr>required = True, trim = True\<rparr>)],
      timestamps = True\<rparr>"

text \<open>
  Setting a String path: \<open>null\<close> and \<open>undefined\<close> stay as they are; any other value
  that is not a string is cast to one; with \<open>trim\<close>, a non-empty string is trimmed.
  \<open>None\<close> is a CastError.
\<close>

definition trim_setter :: "path_options \<Rightarrow> jsstring \<Rightarrow> jsstring" where
  "trim_setter opts s = (if trim opts \<and> s \<noteq> [] then String_trim s else s)"

definition applySetters :: "(jsval \<Rightarrow> jsstring option) \<Rightarrow> path_options \<Rightarrow> jsval \<Rightarrow> jsval option" where
  "applySetters cast opts v =
     (case v of
        JUndefined \<Rightarrow> Some JUndefined
      | JNull \<Rightarrow> Some JNull
      | JStr s \<Rightarrow> Some (JStr (trim_setter opts s))
      | _ \<Rightarrow> (case cast v of None \<Rightarrow> None | Some s \<Rightarrow> Some (JStr (trim_setter opts s))))"

text \<open>
  Validation of a String path: a CastError fails; \<open>required\<close> fails on a value that
  is not a string of positive length.
\<close>

definition path_invalid :: "path_options \<Rightarrow> jsval option \<Rightarrow> bool" where
  "path_invalid opts r =
     (case r of
        None \<Rightarrow> True
      | Some (JStr s) \<Rightarrow> required opts \<and> s = []
      | Some _ \<Rightarrow> required opts)"

fun set_paths :: "(jsval \<Rightarrow> jsstring option) \<Rightarrow> (jsstring \<times> path_options) list \<Rightarrow> jsval
    \<Rightarrow> (jsstring \<times> path_options \<times> jsval option) list" where
  "set_paths cast [] obj = []"
| "set_paths cast ((k, opts) # ps) obj =
     (k, opts, applySetters cast opts (js_get obj k)) # set_paths cast ps obj"

fun invalid_paths :: "(jsstring \<times> path_options \<times> jsval option) list \<Rightarrow> jsstring list" where
  "invalid_paths [] = []"
| "invalid_paths ((k, opts, r) # rs) =
     (if path_invalid opts r then k # invalid_paths rs else invalid_paths rs)"

fun document_fields :: "(jsstring \<times> path_options \<times> jsval option) list \<Rightarrow> (jsstring \<times> jsval) list" where
  "document_fields [] = []"
| "document_fields ((k, opts, None) # rs) = document_fields rs"
| "document_fields ((k, opts, Some JUndefined) # rs) = document_fields rs"
| "document_fields ((k, opts, Some v) # rs) = (k, v) # document_fields rs"

text \<open>
  The document as the store holds it: the generated \<open>_id\<close> first, the schema's paths,
  with \<open>timestamps\<close> both \<open>createdAt\<close> and \<open>updatedAt\<close> set to the time of creation,
  and the version key \<open>__v\<close>.
\<close>

definition new_document :: "env \<Rightarrow> schema \<Rightarrow> (jsstring \<times> path_options \<times> jsval option) list \<Rightarrow> jsval" where
  "new_document e sch vals =
     JObj ([(js ''_id'', JObjectId (new_ObjectId e))]
           @ document_fields vals
           @ (if timestamps sch
              then [(js ''createdAt'', JDate (Date_now e)), (js ''updatedAt'', JDate (Date_now e))]
              else [])
           @ [(js ''__v'', JNum NumZero)])"

text \<open>
  What the store holds of a value and hands back when it is read: the driver writes BSON,
  whose strings and field names are UTF-8, so a string comes back with every unpaired
  surrogate replaced by U+FFFD; \<open>undefined\<close> is written as \<open>null\<close>; numbers,
  ObjectIds and Dates come back as they were.
\<close>

fun BSON_roundtrip :: "jsval \<Rightarrow> jsval"
  and BSON_roundtrip_array :: "jsval list \<Rightarrow> jsval list"
  and BSON_roundtrip_document :: "(jsstring \<times> jsval) list \<Rightarrow> (jsstring \<times> jsval) list"
where
  "BSON_roundtrip JUndefined = JNull"
| "BSON_roundtrip JNull = JNull"
| "BSON_roundtrip (JBool b) = JBool b"
| "BSON_roundtrip (JNum n) = JNum n"
| "BSON_roundtrip (JStr s) = JStr (toWellFormed s)"
| "BSON_roundtrip (JObjectId h) = JObjectId h"
| "BSON_roundtrip (JDate t) = JDate t"
| "BSON_roundtrip (JArr vs) = JArr (BSON_roundtrip_array vs)"
| "BSON_roundtrip (JObj ps) = JObj (BSON_roundtrip_document ps)"
| "BSON_roundtrip_array [] = []"
| "BSON_roundtrip_array (v # vs) = BSON_roundtrip v # BSON_roundtrip_array vs"
| "BSON_roundtrip_document [] = []"
| "BSON_roundtrip_document ((k, v) # ps) =
     (toWellFormed k, BSON_roundtrip v) # BSON_roundtrip_document ps"

text \<open>
  The store commits an insert: the document, as BSON holds it, joins the collection and
  the store emits an \<open>insert\<close> change event that carries it.
\<close>

definition insertOne :: "jsval \<Rightarrow> world \<Rightarrow> world" where
  "insertOne doc w =
     w\<lparr>collection := collection w @ [BSON_roundtrip doc],
       change_feed := change_feed w
         @ [\<lparr>operationType = js ''insert'', fullDocument = BSON_roundtrip doc\<rparr>]\<rparr>"

text \<open>
  \<open>Model.create(obj)\<close>, awaited: the schema's paths are set from \<open>obj\<close>, the document
  is validated (a failure rejects with a ValidationError naming the failing paths and
  nothing is sent to the store), then inserted (the store may reject). The result is the
  document in memory, as it was built.
\<close>

definition Model_create :: "schema \<Rightarrow> env \<Rightarrow> jsval \<Rightarrow> world \<Rightarrow> jsval outcome \<times> world" where
  "Model_create sch e obj w =
     (let vals = set_paths (castString e) (paths sch) obj in
      if invalid_paths vals \<noteq> [] then (Threw (ValidationError (invalid_paths vals)), w)
      else if \<not> insert_ok e then (Threw MongoServerError, w)
      else (Returned (new_document e sch vals), insertOne (new_document e sch vals) w))"

definition Message_create :: "env \<Rightarrow> jsval \<Rightarrow> world \<Rightarrow> jsval outcome \<times> world" where
  "Message_create = Model_create messageSchema"

section \<open>The submission endpoint: POST\<close>

datatype body = Json jsval | Stream

record response =
  status :: nat
  headers :: "(jsstring \<times> jsstring) list"
  body :: body

definition NextResponse_json :: "jsval \<Rightarrow> nat \<Rightarrow> response" where
  "NextResponse_json data st =
     \<lparr>status = st, headers = [(js ''content-type'', js ''application/json'')], body = Json data\<rparr>"

text \<open>
  The handler. \<open>req_json\<close> is what \<open>await req.json()\<close> gives: \<open>None\<close> when the body
  is not JSON (the await throws a SyntaxError). Destructuring \<open>null\<close> throws a TypeError.
\<close>

definition POST :: "env \<Rightarrow> jsval option \<Rightarrow> world \<Rightarrow> response outcome \<times> world" where
  "POST e req_json w =
     (case connectDB e w of
        (Exited n, w1) \<Rightarrow> (Exited n, w1)
      | (Threw x, w1) \<Rightarrow> (Threw x, w1)
      | (Returned u, w1) \<Rightarrow>
          (case req_json of
             None \<Rightarrow> (Threw SyntaxError, w1)
           | Some b \<Rightarrow>
               if b = JNull \<or> b = JUndefined then (Threw TypeError, w1)
               else
                 let username = js_get b (js ''username'');
                     content = js_get b (js ''content'')
                 in
                   if \<not> truthy username \<or> \<not> truthy content
                   then (Returned (NextResponse_json
                           (JObj [(js ''error'', JStr (js ''Invalid input''))]) 400), w1)
                   else
                     (case Message_create e
                             (JObj [(js ''username'', username), (js ''content'', content)]) w1 of
                        (Returned result, w2) \<Rightarrow>
                          (Returned (NextResponse_json
                             (JObj [(js ''success'', JBool True),
                                    (js ''messageId'', js_get result (js ''_id''))]) 201), w2)
                      | (Threw x, w2) \<Rightarrow> (Threw x, w2)
                      | (Exited n, w2) \<Rightarrow> (Exited n, w2))))"

section \<open>The streaming endpoint: api/stream-messages/route.js\<close>

text \<open>
  One streaming connection: whether the change stream opened by \<open>Message.watch()\<close>
  is closed, whether the response's ReadableStream is closed (by \<open>controller.close\<close> or by
  a cancellation), whether the request's abort signal has fired, and the chunks enqueued
  so far.
\<close>

record connection =
  changeStream_closed :: bool
  controller_closed :: bool
  signal_aborted :: bool
  enqueued :: "byte list list"

text \<open>
  \<open>controller.enqueue\<close> and \<open>controller.close\<close> throw a TypeError on a controller
  whose stream is closed. \<open>changeStream.close\<close> may be repeated. A listener that throws
  keeps the effects it had before.
\<close>

definition controller_enqueue :: "byte list \<Rightarrow> connection \<Rightarrow> unit outcome \<times> connection" where
  "controller_enqueue chunk c =
     (if controller_closed c then (Threw TypeError, c)
      else (Returned (), c\<lparr>enqueued := enqueued c @ [chunk]\<rparr>))"

definition controller_close :: "connection \<Rightarrow> unit outcome \<times> connection" where
  "controller_close c =
     (if controller_closed c then (Threw TypeError, c)
      else (Returned (), c\<lparr>controller_closed := True\<rparr>))"

definition changeStream_close :: "connection \<Rightarrow> connection" where
  "changeStream_close c = c\<lparr>changeStream_closed := True\<rparr>"

text \<open>The listener of the change stream's \<open>change\<close> event.\<close>

definition messageString :: "jsval \<Rightarrow> jsstring" where
  "messageString newMessage =
     js ''data: '' @ template_hole (JSON_stringify newMessage) @ js ''\<newline>\<newline>''"

definition on_change :: "change_event \<Rightarrow> connection \<Rightarrow> unit outcome \<times> connection" where
  "on_change change c =
     (if operationType change = js ''insert''
      then
        let newMessage = fullDocument change
        in controller_enqueue (TextEncoder_encode (messageString newMessage)) c
      else (Returned (), c))"

text \<open>The listener of the signal's \<open>abort\<close> event.\<close>

definition on_abort :: "connection \<Rightarrow> unit outcome \<times> connection" where
  "on_abort c = controller_close (changeStream_close c)"

text \<open>
  The handler: \<open>connectDB()\<close> is called and not awaited (it runs up to its
  \<open>await\<close>; the rest, \<open>connectDB_resume\<close>, runs after the handler has returned),
  the stream's \<open>start\<close> opens the change stream and registers both listeners, and the
  response is returned with the stream as its body. The result is the response, the
  connection just opened, and the state of the process.
\<close>

definition GET :: "world \<Rightarrow> (response \<times> connection) \<times> world" where
  "GET w =
     ((\<lparr>status = 200,
        headers = [(js ''Content-Type'', js ''text/event-stream''),
                   (js ''Cache-Control'', js ''no-cache''),
                   (js ''Connection'', js ''keep-alive'')],
        body = Stream\<rparr>,
       \<lparr>changeStream_closed = False, controller_closed = False, signal_aborted = False,
        enqueued = []\<rparr>),
      snd (connectDB_begin w))"

text \<open>
  What can happen to a connection, one event at a time (each listener runs to
  completion): the store's feed offers a change event, which a change stream that is not
  closed passes to its listener and a closed one drops; the consumer of the response body
  cancels the stream (the stream has no \<open>cancel\<close> callback, it is just closed); the
  client goes away and the signal fires its \<open>abort\<close> event, once. \<open>run\<close> is the
  connection after a sequence of events; what a listener threw is left to the runtime.
\<close>

datatype event = Change change_event | Cancel | Abort

fun dispatch :: "event \<Rightarrow> connection \<Rightarrow> unit outcome \<times> connection" where
  "dispatch (Change change) c =
     (if changeStream_closed c then (Returned (), c) else on_change change c)"
| "dispatch Cancel c = (Returned (), c\<lparr>controller_closed := True\<rparr>)"
| "dispatch Abort c =
     (if signal_aborted c then (Returned (), c) else on_abort (c\<lparr>signal_aborted := True\<rparr>))"

fun run :: "event list \<Rightarrow> connection \<Rightarrow> connection" where
  "run [] c = c"
| "run (ev # evs) c = run evs (snd (dispatch ev c))"

section \<open>Auxiliary definitions for the statements\<close>

text \<open>A run of awaited \<open>connectDB\<close> calls, one after the other.\<close>

fun connectDB_calls :: "env list \<Rightarrow> world \<Rightarrow> unit outcome \<times> world" where
  "connectDB_calls [] w = (Returned (), w)"
| "connectDB_calls (e # es) w =
     (case connectDB e w of
        (Returned u, w') \<Rightarrow> connectDB_calls es w'
      | (Threw x, w') \<Rightarrow> (Threw x, w')
      | (Exited n, w') \<Rightarrow> (Exited n, w'))"

text \<open>
  The frame as the specification words it, for comparison with the frame the handler
  writes: the prefix, a JSON object with the four fields \<open>id\<close>, \<open>username\<close>,
  \<open>content\<close> and \<open>createdAt\<close>, and two newlines.
\<close>

definition spec_frame :: "jsstring \<Rightarrow> jsstring \<Rightarrow> jsstring \<Rightarrow> jsstring \<Rightarrow> byte list" where
  "spec_frame messageId username content createdAt =
     TextEncoder_encode
       (js ''data: {\"id\":'' @ QuoteJSONString messageId
        @ js '',\"username\":'' @ QuoteJSONString username
        @ js '',\"content\":'' @ QuoteJSONString content
        @ js '',\"createdAt\":'' @ QuoteJSONString createdAt
        @ js ''}\<newline>\<newline>'')"

text \<open>A concrete environment and a fresh process, for the examples.\<close>

definition example_env :: env where
  "example_env =
     \<lparr>connect_ok = True, insert_ok = True,
      new_ObjectId = js ''64b7f3a2c9e1d4a5b6c7d8e9'',
      Date_now = js ''2024-01-01T00:00:00.000Z'',
      castString = (\<lambda>v. None)\<rparr>"

definition example_world :: world where
  "example_world =
     \<lparr>readyState = 0, strictQuery = False, connect_calls = 0, collection = [],
      change_feed = [], console = []\<rparr>"

definition connected_world :: world where
  "connected_world =
     \<lparr>readyState = 1, strictQuery = True, connect_calls = 1, collection = [],
      change_feed = [], console = [ConsoleLog (js ''Database connected'')]\<rparr>"

definition alice_document :: jsval where
  "alice_document =
     JObj [(js ''_id'', JObjectId (js ''64b7f3a2c9e1d4a5b6c7d8e9'')),
           (js ''username'', JStr (js ''alice'')),
           (js ''content'', JStr (js ''hello'')),
           (js ''createdAt'', JDate (js ''2024-01-01T00:00:00.000Z'')),
           (js ''updatedAt'', JDate (js ''2024-01-01T00:00:00.000Z'')),
           (js ''__v'', JNum NumZero)]"

definition lone_surrogate_document :: jsval where
  "lone_surrogate_document =
     JObj [(js ''_id'', JObjectId (js ''64b7f3a2c9e1d4a5b6c7d8e9'')),
           (js ''username'', JStr [0xFFFD, 0x78]),
           (js ''content'', JStr (js ''hi'')),
           (js ''createdAt'', JDate (js ''2024-01-01T00:00:00.000Z'')),
           (js ''updatedAt'', JDate (js ''2024-01-01T00:00:00.000Z'')),
           (js ''__v'', JNum NumZero)]"

definition alice_frame :: "byte list" where
  "alice_frame =
     TextEncoder_encode
       (js ''data: {\"_id\":\"64b7f3a2c9e1d4a5b6c7d8e9\",\"username\":\"alice\",\"content\":\"hello\",\"createdAt\":\"2024-01-01T00:00:00.000Z\",\"updatedAt\":\"2024-01-01T00:00:00.000Z\",\"__v\":0}\<newline>\<newline>'')"

definition open_connection :: connection where
  "open_connection =
     \<lparr>changeStream_closed = False, controller_closed = False, signal_aborted = False,
      enqueued = []\<rparr>"

section \<open>Properties of the JavaScript built-ins\<close>

subsection \<open>\<open>String.prototype.trim\<close>\<close>

lemma rev_dropWhile_split:
  "t = rev (dropWhile P (rev t)) @ rev (takeWhile P (rev t))"
proof -
  have "rev (takeWhile P (rev t) @ dropWhile P (rev t)) = rev (rev t)"
    by (simp only: takeWhile_dropWhile_id)
  then show ?thesis by (simp only: rev_append rev_rev_ident)
qed

text \<open>The trimmed string is what is left of the string between two runs of whitespace.\<close>

lemma String_trim_decomp:
  "\<exists>pre post. s = pre @ String_trim s @ post
      \<and> list_all is_js_space pre \<and> list_all is_js_space post"
proof -
  let ?t = "dropWhile is_js_space s"
  let ?post = "rev (takeWhile is_js_space (rev ?t))"
  have 1: "s = takeWhile is_js_space s @ ?t" by simp
  have 2: "?t = String_trim s @ ?post"
    unfolding String_trim_def by (rule rev_dropWhile_split)
  have 3: "list_all is_js_space (takeWhile is_js_space s)"
    unfolding list_all_iff by (blast dest: set_takeWhileD)
  have 4: "list_all is_js_space ?post"
    unfolding list_all_iff set_rev by (blast dest: set_takeWhileD)
  from 1 2 have "s = takeWhile is_js_space s @ String_trim s @ ?post"
    by (simp only:)
  with 3 4 show ?thesis by blast
qed

lemma dropWhile_Nil_rev:
  "dropWhile P (rev (dropWhile P s)) = [] \<longleftrightarrow> dropWhile P s = []"
proof
  assume a: "dropWhile P (rev (dropWhile P s)) = []"
  show "dropWhile P s = []"
  proof (rule ccontr)
    assume n: "dropWhile P s \<noteq> []"
    then have "\<not> P (hd (dropWhile P s))" by (rule hd_dropWhile)
    moreover from n have "hd (dropWhile P s) \<in> set (rev (dropWhile P s))" by simp
    moreover from a have "\<forall>x\<in>set (rev (dropWhile P s)). P x"
      by (simp only: dropWhile_eq_Nil_conv)
    ultimately show False by blast
  qed
next
  assume e: "dropWhile P s = []"
  show "dropWhile P (rev (dropWhile P s)) = []" unfolding e by simp
qed

lemma String_trim_Nil_iff: "String_trim s = [] \<longleftrightarrow> list_all is_js_space s"
  unfolding String_trim_def rev_is_Nil_conv dropWhile_Nil_rev
  by (simp add: list_all_iff)

text \<open>A non-empty trimmed string neither starts nor ends with whitespace.\<close>

lemma String_trim_ends:
  assumes "String_trim s \<noteq> []"
  shows "\<not> is_js_space (hd (String_trim s)) \<and> \<not> is_js_space (last (String_trim s))"
proof -
  let ?t = "dropWhile is_js_space s"
  let ?r = "dropWhile is_js_space (rev ?t)"
  from assms have r: "?r \<noteq> []" unfolding String_trim_def rev_is_Nil_conv .
  then have t: "?t \<noteq> []" unfolding dropWhile_Nil_rev .
  have "last (String_trim s) = hd ?r" unfolding String_trim_def by (simp only: last_rev)
  moreover have "\<not> is_js_space (hd ?r)" using r by (rule hd_dropWhile)
  moreover have "hd (String_trim s) = last ?r" unfolding String_trim_def by (simp only: hd_rev)
  moreover have "last ?r = last (rev ?t)"
  proof -
    have "last (takeWhile is_js_space (rev ?t) @ ?r) = last ?r" using r by (rule last_appendR)
    then show ?thesis by (simp only: takeWhile_dropWhile_id)
  qed
  moreover have "last (rev ?t) = hd ?t" using t by (simp only: last_rev rev_rev_ident)
  moreover have "\<not> is_js_space (hd ?t)" using t by (rule hd_dropWhile)
  ultimately show ?thesis by simp
qed

subsection \<open>\<open>String.prototype.toWellFormed\<close>\<close>

text \<open>
  The replacement distributes over a concatenation unless the cut separates the two
  halves of a surrogate pair.
\<close>

lemma toWellFormed_append:
  assumes "a = [] \<or> b = [] \<or> \<not> (is_high_surrogate (last a) \<and> is_low_surrogate (hd b))"
  shows "toWellFormed (a @ b) = toWellFormed a @ toWellFormed b"
  using assms
proof (induction a rule: toWellFormed.induct)
  case 1
  then show ?case by simp
next
  case (2 c)
  then show ?case by (cases b) auto
next
  case (3 c d cs)
  show ?case
  proof (cases "is_high_surrogate c \<and> is_low_surrogate d")
    case True
    have p: "cs = [] \<or> b = [] \<or> \<not> (is_high_surrogate (last cs) \<and> is_low_surrogate (hd b))"
      using "3.prems" by (cases "cs = []") auto
    have ih: "toWellFormed (cs @ b) = toWellFormed cs @ toWellFormed b"
      using True p by (rule "3.IH"(1))
    have e1: "toWellFormed ((c # d # cs) @ b) = c # d # toWellFormed (cs @ b)"
      using True by simp
    have e2: "toWellFormed (c # d # cs) = c # d # toWellFormed cs"
      using True by simp
    show ?thesis unfolding e1 e2 ih by simp
  next
    case False
    have p: "d # cs = [] \<or> b = []
        \<or> \<not> (is_high_surrogate (last (d # cs)) \<and> is_low_surrogate (hd b))"
      using "3.prems" by auto
    have ih: "toWellFormed ((d # cs) @ b) = toWellFormed (d # cs) @ toWellFormed b"
      using False p by (rule "3.IH"(2))
    have e1: "toWellFormed ((c # d # cs) @ b) =
        (if is_high_surrogate c \<or> is_low_surrogate c then 0xFFFD else c)
          # toWellFormed ((d # cs) @ b)"
      using False by auto
    have e2: "toWellFormed (c # d # cs) =
        (if is_high_surrogate c \<or> is_low_surrogate c then 0xFFFD else c)
          # toWellFormed (d # cs)"
      using False by auto
    show ?thesis unfolding e1 e2 ih by simp
  qed
qed

lemma length_toWellFormed [simp]: "length (toWellFormed s) = length s"
  by (induction s rule: toWellFormed.induct) auto

lemma toWellFormed_Nil_iff [simp]: "toWellFormed s = [] \<longleftrightarrow> s = []"
  using length_toWellFormed[of s] by (metis length_0_conv)

lemma space_not_surrogate:
  "is_js_space c \<Longrightarrow> \<not> is_high_surrogate c \<and> \<not> is_low_surrogate c"
  by (auto simp add: is_js_space_def is_high_surrogate_def is_low_surrogate_def)

lemma replacement_not_space: "\<not> is_js_space 0xFFFD"
  by (simp add: is_js_space_def)

text \<open>Each code unit is kept or replaced by U+FFFD.\<close>

lemma toWellFormed_pointwise:
  "list_all2 (\<lambda>x y. y = x \<or> y = 0xFFFD) s (toWellFormed s)"
  by (induction s rule: toWellFormed.induct) auto

lemma toWellFormed_not_space:
  assumes "s \<noteq> []"
  shows "\<not> is_js_space (hd s) \<Longrightarrow> \<not> is_js_space (hd (toWellFormed s))"
    and "\<not> is_js_space (last s) \<Longrightarrow> \<not> is_js_space (last (toWellFormed s))"
proof -
  note p = toWellFormed_pointwise[of s, unfolded list_all2_conv_all_nth]
  have n: "0 < length s" using assms by simp
  have h: "hd (toWellFormed s) = hd s \<or> hd (toWellFormed s) = 0xFFFD"
    using p n assms by (simp add: hd_conv_nth)
  have l: "last (toWellFormed s) = last s \<or> last (toWellFormed s) = 0xFFFD"
    using p n assms by (simp add: last_conv_nth)
  show "\<not> is_js_space (hd s) \<Longrightarrow> \<not> is_js_space (hd (toWellFormed s))"
    using h replacement_not_space by auto
  show "\<not> is_js_space (last s) \<Longrightarrow> \<not> is_js_space (last (toWellFormed s))"
    using l replacement_not_space by auto
qed

lemma toWellFormed_Cons_plain:
  "\<not> is_high_surrogate c \<Longrightarrow> \<not> is_low_surrogate c \<Longrightarrow> toWellFormed (c # s) = c # toWellFormed s"
  by (cases s) auto

text \<open>The result is well-formed.\<close>

lemma toWellFormed_idem: "isWellFormed (toWellFormed s)"
  unfolding isWellFormed_def
proof (induction s rule: toWellFormed.induct)
  case 1
  then show ?case by simp
next
  case (2 c)
  then show ?case by (simp add: is_high_surrogate_def is_low_surrogate_def)
next
  case (3 c d cs)
  show ?case
  proof (cases "is_high_surrogate c \<and> is_low_surrogate d")
    case True
    with "3.IH"(1) show ?thesis by simp
  next
    case False
    define c' where "c' = (if is_high_surrogate c \<or> is_low_surrogate c then 0xFFFD else c)"
    have n: "\<not> is_high_surrogate c'" "\<not> is_low_surrogate c'"
      by (auto simp add: c'_def is_high_surrogate_def is_low_surrogate_def)
    have t: "toWellFormed (c # d # cs) = c' # toWellFormed (d # cs)"
      using False by (auto simp add: c'_def)
    show ?thesis unfolding t toWellFormed_Cons_plain[OF n] using "3.IH"(2)[OF False] by simp
  qed
qed

text \<open>Trimming a well-formed string leaves a well-formed string.\<close>

lemma isWellFormed_dropWhile:
  "isWellFormed s \<Longrightarrow> isWellFormed (dropWhile is_js_space s)"
proof (induction s)
  case Nil
  then show ?case by simp
next
  case (Cons c s)
  show ?case
  proof (cases "is_js_space c")
    case True
    from space_not_surrogate[OF True] Cons.prems have "isWellFormed s"
      by (simp add: isWellFormed_def toWellFormed_Cons_plain)
    with Cons.IH True show ?thesis by simp
  next
    case False
    with Cons.prems show ?thesis by simp
  qed
qed

lemma isWellFormed_butlast_plain:
  assumes "isWellFormed (s @ [c])" "\<not> is_low_surrogate c"
  shows "isWellFormed s"
proof -
  have "toWellFormed (s @ [c]) = toWellFormed s @ toWellFormed [c]"
    by (rule toWellFormed_append) (simp add: assms(2))
  with assms(1) have "toWellFormed s @ toWellFormed [c] = s @ [c]" by (simp add: isWellFormed_def)
  then have "toWellFormed s = s" by simp
  then show ?thesis by (simp add: isWellFormed_def)
qed

lemma isWellFormed_drop_suffix:
  "isWellFormed (s @ post) \<Longrightarrow> list_all is_js_space post \<Longrightarrow> isWellFormed s"
proof (induction post rule: rev_induct)
  case Nil
  then show ?case by simp
next
  case (snoc c post)
  from snoc.prems(2) have c: "is_js_space c" and p: "list_all is_js_space post" by simp_all
  from snoc.prems(1) have "isWellFormed ((s @ post) @ [c])" by simp
  moreover have "\<not> is_low_surrogate c" using space_not_surrogate[OF c] by simp
  ultimately have "isWellFormed (s @ post)" by (rule isWellFormed_butlast_plain)
  with snoc.IH p show ?case by simp
qed

lemma isWellFormed_trim: "isWellFormed s \<Longrightarrow> isWellFormed (String_trim s)"
proof -
  assume "isWellFormed s"
  then have "isWellFormed (dropWhile is_js_space s)" by (rule isWellFormed_dropWhile)
  moreover have "dropWhile is_js_space s =
      String_trim s @ rev (takeWhile is_js_space (rev (dropWhile is_js_space s)))"
    unfolding String_trim_def by (rule rev_dropWhile_split)
  ultimately have "isWellFormed
      (String_trim s @ rev (takeWhile is_js_space (rev (dropWhile is_js_space s))))"
    by simp
  moreover have "list_all is_js_space (rev (takeWhile is_js_space (rev (dropWhile is_js_space s))))"
    unfolding list_all_iff set_rev by (blast dest: set_takeWhileD)
  ultimately show ?thesis by (rule isWellFormed_drop_suffix)
qed

subsection \<open>\<open>TextEncoder.encode\<close>\<close>

text \<open>
  The encoder distributes over a concatenation unless the cut separates the two halves
  of a surrogate pair.
\<close>

lemma encode_append:
  assumes "a = [] \<or> b = [] \<or> \<not> (is_high_surrogate (last a) \<and> is_low_surrogate (hd b))"
  shows "TextEncoder_encode (a @ b) = TextEncoder_encode a @ TextEncoder_encode b"
  using assms
proof (induction a rule: TextEncoder_encode.induct)
  case 1
  then show ?case by simp
next
  case (2 c)
  then show ?case by (cases b) auto
next
  case (3 c d cs)
  show ?case
  proof (cases "is_high_surrogate c \<and> is_low_surrogate d")
    case True
    have p: "cs = [] \<or> b = [] \<or> \<not> (is_high_surrogate (last cs) \<and> is_low_surrogate (hd b))"
      using "3.prems" by (cases "cs = []") auto
    have ih: "TextEncoder_encode (cs @ b) = TextEncoder_encode cs @ TextEncoder_encode b"
      using True p by (rule "3.IH"(1))
    have e1: "TextEncoder_encode ((c # d # cs) @ b) =
        utf8_code_point (0x10000 + (unat c - 0xD800) * 1024 + (unat d - 0xDC00))
          @ TextEncoder_encode (cs @ b)"
      using True by simp
    have e2: "TextEncoder_encode (c # d # cs) =
        utf8_code_point (0x10000 + (unat c - 0xD800) * 1024 + (unat d - 0xDC00))
          @ TextEncoder_encode cs"
      using True by simp
    show ?thesis unfolding e1 e2 ih by simp
  next
    case False
    have p: "d # cs = [] \<or> b = []
        \<or> \<not> (is_high_surrogate (last (d # cs)) \<and> is_low_surrogate (hd b))"
      using "3.prems" by auto
    have ih: "TextEncoder_encode ((d # cs) @ b) =
        TextEncoder_encode (d # cs) @ TextEncoder_encode b"
      using False p by (rule "3.IH"(2))
    have e1: "TextEncoder_encode ((c # d # cs) @ b) =
        utf8_code_point (scalar_value c) @ TextEncoder_encode ((d # cs) @ b)"
      using False by auto
    have e2: "TextEncoder_encode (c # d # cs) =
        utf8_code_point (scalar_value c) @ TextEncoder_encode (d # cs)"
      using False by auto
    show ?thesis unfolding e1 e2 ih by simp
  qed
qed

text \<open>
  A string and its well-formed replacement have the same UTF-8 bytes: the replacement is
  what comes back when the bytes are read.
\<close>

lemma encode_toWellFormed: "TextEncoder_encode (toWellFormed s) = TextEncoder_encode s"
proof (induction s rule: toWellFormed.induct)
  case 1
  then show ?case by simp
next
  case (2 c)
  then show ?case by (simp add: scalar_value_def is_high_surrogate_def is_low_surrogate_def)
next
  case (3 c d cs)
  show ?case
  proof (cases "is_high_surrogate c \<and> is_low_surrogate d")
    case True
    with "3.IH"(1) show ?thesis by simp
  next
    case False
    define c' where "c' = (if is_high_surrogate c \<or> is_low_surrogate c then 0xFFFD else c)"
    have n: "\<not> is_high_surrogate c'" "\<not> is_low_surrogate c'" "scalar_value c' = scalar_value c"
      by (auto simp add: c'_def scalar_value_def is_high_surrogate_def is_low_surrogate_def)
    have t: "toWellFormed (c # d # cs) = c' # toWellFormed (d # cs)"
      using False by (auto simp add: c'_def)
    obtain r rs where r: "toWellFormed (d # cs) = r # rs"
      by (cases "toWellFormed (d # cs)") simp_all
    have "TextEncoder_encode (c' # r # rs) =
        utf8_code_point (scalar_value c') @ TextEncoder_encode (r # rs)"
      using n by simp
    with "3.IH"(2)[OF False] False show ?thesis unfolding t r n(3) by auto
  qed
qed

lemma messageString_bytes:
  "TextEncoder_encode (messageString v) =
     TextEncoder_encode (js ''data: '') @ TextEncoder_encode (template_hole (JSON_stringify v))
       @ TextEncoder_encode (js ''\<newline>\<newline>'')"
proof -
  let ?x = "template_hole (JSON_stringify v)"
  have 1: "TextEncoder_encode (js ''data: '' @ (?x @ js ''\<newline>\<newline>'')) =
      TextEncoder_encode (js ''data: '') @ TextEncoder_encode (?x @ js ''\<newline>\<newline>'')"
    by (rule encode_append) (simp add: js_def is_high_surrogate_def)
  have 2: "TextEncoder_encode (?x @ js ''\<newline>\<newline>'') =
      TextEncoder_encode ?x @ TextEncoder_encode (js ''\<newline>\<newline>'')"
    by (rule encode_append) (simp add: js_def is_low_surrogate_def)
  from 1 2 show ?thesis by (simp add: messageString_def)
qed

section \<open>Properties of the database connection\<close>

lemma connectDB_cases:
  obtains w1 where "connectDB e w = (Returned (), w1)" "1 \<le> readyState w \<or> connect_ok e"
    "collection w1 = collection w" "change_feed w1 = change_feed w"
  | w1 where "connectDB e w = (Exited 1, w1)" "\<not> (1 \<le> readyState w \<or> connect_ok e)"
    "collection w1 = collection w" "change_feed w1 = change_feed w"
  by (cases "1 \<le> readyState w"; cases "connect_ok e")
     (auto simp add: connectDB_def connectDB_begin_def connectDB_resume_def console_log_def
        console_error_def)

lemma connectDB_connected:
  "1 \<le> readyState w \<Longrightarrow>
     connectDB e w =
       (Returned (),
        w\<lparr>console := console w @ [ConsoleLog (js ''Already connected to the database.'')]\<rparr>)"
  by (simp add: connectDB_def connectDB_begin_def console_log_def)

lemma connectDB_calls_connected:
  "1 \<le> readyState w \<Longrightarrow>
     connectDB_calls es w =
       (Returned (),
        w\<lparr>console := console w
             @ replicate (length es) (ConsoleLog (js ''Already connected to the database.''))\<rparr>)"
proof (induction es arbitrary: w)
  case Nil
  then show ?case by simp
next
  case (Cons e es)
  let ?w = "w\<lparr>console := console w @ [ConsoleLog (js ''Already connected to the database.'')]\<rparr>"
  have "1 \<le> readyState ?w" using Cons.prems by simp
  from Cons.IH[OF this] connectDB_connected[OF Cons.prems, of e]
  show ?case by (simp add: replicate_append_same)
qed

lemma connectDB_establishes:
  "fst (connectDB e w) = Returned () \<Longrightarrow> 1 \<le> readyState (snd (connectDB e w))"
  by (auto simp add: connectDB_def connectDB_begin_def connectDB_resume_def console_log_def
        split: if_splits)

text \<open>
  C10: when the connection's \<open>readyState\<close> is at least 1, \<open>connectDB\<close> returns at once:
  it does not call \<open>mongoose.connect\<close> and changes nothing but the console, to which it
  logs one line. Any number of further calls do the same, and every call that returns
  leaves \<open>readyState\<close> at least 1, so that every call after a first one that returned is
  such a call.
\<close>

theorem connectDB_when_connected:
  "(1 \<le> readyState w \<longrightarrow>
      connectDB e w =
        (Returned (),
         w\<lparr>console := console w @ [ConsoleLog (js ''Already connected to the database.'')]\<rparr>)
    \<and> connect_calls (snd (connectDB e w)) = connect_calls w
    \<and> readyState (snd (connectDB e w)) = readyState w
    \<and> connectDB_calls es w =
        (Returned (),
         w\<lparr>console := console w
              @ replicate (length es) (ConsoleLog (js ''Already connected to the database.''))\<rparr>))
   \<and> (fst (connectDB e w) = Returned () \<longrightarrow> 1 \<le> readyState (snd (connectDB e w)))"
  using connectDB_connected[of w e] connectDB_calls_connected[of w es]
    connectDB_establishes[of e w]
  by simp

theorem connectDB_when_connected_witness:
  "1 \<le> readyState connected_world
   \<and> connectDB example_env connected_world =
       (Returned (),
        connected_world\<lparr>console := [ConsoleLog (js ''Database connected''),
          ConsoleLog (js ''Already connected to the database.'')]\<rparr>)
   \<and> connect_calls (snd (connectDB example_env connected_world)) = 1
   \<and> readyState (snd (connectDB example_env connected_world)) = 1
   \<and> connectDB_calls [example_env, example_env] connected_world =
       (Returned (),
        connected_world\<lparr>console := [ConsoleLog (js ''Database connected''),
          ConsoleLog (js ''Already connected to the database.''),
          ConsoleLog (js ''Already connected to the database.'')]\<rparr>)
   \<and> fst (connectDB example_env example_world) = Returned ()
   \<and> 1 \<le> readyState (snd (connectDB example_env example_world))"
proof -
  have c: "1 \<le> readyState connected_world" by (simp add: connected_world_def)
  have r: "fst (connectDB example_env example_world) = Returned ()"
    by (simp add: connectDB_def connectDB_begin_def connectDB_resume_def example_env_def
          example_world_def)
  from connectDB_when_connected[of connected_world example_env "[example_env, example_env]"]
    connectDB_when_connected[of example_world example_env "[]"] c r
  show ?thesis by (simp add: connected_world_def del: connectDB_calls.simps)
qed

section \<open>Properties of the submission endpoint\<close>

lemma js_Nil_iff [simp]: "js s = [] \<longleftrightarrow> s = []"
  by (simp add: js_def)

lemma keys_neq [simp]:
  "js ''username'' \<noteq> js ''content''" "js ''content'' \<noteq> js ''username''"
  "js ''_id'' \<noteq> js ''username''" "js ''_id'' \<noteq> js ''content''"
  "js ''username'' \<noteq> js ''_id''" "js ''content'' \<noteq> js ''_id''"
  by (simp_all add: js_def)

lemma keys_wellFormed [simp]:
  "toWellFormed (js ''_id'') = js ''_id''" "toWellFormed (js ''username'') = js ''username''"
  "toWellFormed (js ''content'') = js ''content''"
  "toWellFormed (js ''createdAt'') = js ''createdAt''"
  "toWellFormed (js ''updatedAt'') = js ''updatedAt''" "toWellFormed (js ''__v'') = js ''__v''"
  by (simp_all add: js_def is_high_surrogate_def is_low_surrogate_def)

text \<open>
  \<open>Message.create\<close> on two non-empty strings: both are trimmed; an empty result fails
  validation; otherwise the store is asked to insert the six-field document, and holds
  its strings as UTF-8.
\<close>

lemma Message_create_strings:
  assumes "u \<noteq> []" "c \<noteq> []"
  shows "Message_create e (JObj [(js ''username'', JStr u), (js ''content'', JStr c)]) w =
   (if String_trim u = [] \<or> String_trim c = []
    then (Threw (ValidationError ((if String_trim u = [] then [js ''username''] else [])
                                  @ (if String_trim c = [] then [js ''content''] else []))), w)
    else if \<not> insert_ok e then (Threw MongoServerError, w)
    else (let doc = JObj [(js ''_id'', JObjectId (new_ObjectId e)),
                     (js ''username'', JStr (String_trim u)),
                     (js ''content'', JStr (String_trim c)),
                     (js ''createdAt'', JDate (Date_now e)),
                     (js ''updatedAt'', JDate (Date_now e)),
                     (js ''__v'', JNum NumZero)];
              stored = JObj [(js ''_id'', JObjectId (new_ObjectId e)),
                     (js ''username'', JStr (toWellFormed (String_trim u))),
                     (js ''content'', JStr (toWellFormed (String_trim c))),
                     (js ''createdAt'', JDate (Date_now e)),
                     (js ''updatedAt'', JDate (Date_now e)),
                     (js ''__v'', JNum NumZero)] in
          (Returned doc,
           w\<lparr>collection := collection w @ [stored],
             change_feed := change_feed w
               @ [\<lparr>operationType = js ''insert'', fullDocument = stored\<rparr>]\<rparr>)))"
  using assms
  by (simp add: Message_create_def Model_create_def messageSchema_def applySetters_def
      trim_setter_def path_invalid_def new_document_def insertOne_def Let_def)

lemma saved_document_get:
  "js_get (JObj [(js ''_id'', i), (js ''username'', a), (js ''content'', b),
                 (js ''createdAt'', t), (js ''updatedAt'', t'), (js ''__v'', v)]) (js ''_id'') = i"
  "js_get (JObj [(js ''_id'', i), (js ''username'', a), (js ''content'', b),
                 (js ''createdAt'', t), (js ''updatedAt'', t'), (js ''__v'', v)]) (js ''username'') = a"
  "js_get (JObj [(js ''_id'', i), (js ''username'', a), (js ''content'', b),
                 (js ''createdAt'', t), (js ''updatedAt'', t'), (js ''__v'', v)]) (js ''content'') = b"
  by simp_all

lemma POST_Exited:
  "connectDB e w = (Exited n, w1) \<Longrightarrow> POST e req_json w = (Exited n, w1)"
  by (simp add: POST_def)

lemma POST_body:
  assumes "connectDB e w = (Returned (), w1)" and "b \<noteq> JNull" and "b \<noteq> JUndefined"
  shows "POST e (Some b) w =
     (if \<not> truthy (js_get b (js ''username'')) \<or> \<not> truthy (js_get b (js ''content''))
      then (Returned (NextResponse_json (JObj [(js ''error'', JStr (js ''Invalid input''))]) 400),
            w1)
      else (case Message_create e
                   (JObj [(js ''username'', js_get b (js ''username'')),
                          (js ''content'', js_get b (js ''content''))]) w1 of
              (Returned result, w2) \<Rightarrow>
                (Returned (NextResponse_json
                   (JObj [(js ''success'', JBool True),
                          (js ''messageId'', js_get result (js ''_id''))]) 201), w2)
            | (Threw x, w2) \<Rightarrow> (Threw x, w2)
            | (Exited n, w2) \<Rightarrow> (Exited n, w2)))"
  using assms by (simp add: POST_def Let_def del: js_get.simps)

lemma POST_not_object:
  assumes "connectDB e w = (Returned (), w1)" and "b = JNull \<or> b = JUndefined"
  shows "POST e (Some b) w = (Threw TypeError, w1)"
  using assms by (auto simp add: POST_def)

lemma js_get_JStr_object: "js_get b k = JStr s \<Longrightarrow> b \<noteq> JNull \<and> b \<noteq> JUndefined"
  by (cases b) auto

text \<open>
  A value that the schema's setters and validators accept for a required, trimmed String
  path is stored as a non-empty trimmed string; for a string it is the trimmed string
  itself.
\<close>

lemma setter_valid:
  assumes "\<not> path_invalid \<lparr>required = True, trim = True\<rparr>
              (applySetters cast \<lparr>required = True, trim = True\<rparr> v)"
  shows "\<exists>s. applySetters cast \<lparr>required = True, trim = True\<rparr> v = Some (JStr (String_trim s))
           \<and> String_trim s \<noteq> [] \<and> (\<forall>u. v = JStr u \<longrightarrow> s = u)"
proof -
  have k: "\<And>s. trim_setter \<lparr>required = True, trim = True\<rparr> s \<noteq> [] \<Longrightarrow>
      trim_setter \<lparr>required = True, trim = True\<rparr> s = String_trim s \<and> String_trim s \<noteq> []"
    by (simp add: trim_setter_def split: if_splits)
  show ?thesis
  proof (cases "\<exists>u. v = JStr u")
    case True
    then obtain u where v: "v = JStr u" by blast
    with assms have "trim_setter \<lparr>required = True, trim = True\<rparr> u \<noteq> []"
      by (simp add: applySetters_def path_invalid_def)
    from k[OF this] v show ?thesis by (simp add: applySetters_def)
  next
    case False
    show ?thesis
    proof (cases "cast v")
      case None
      with assms False show ?thesis
        by (cases v) (simp_all add: applySetters_def path_invalid_def)
    next
      case (Some s)
      with assms False have "trim_setter \<lparr>required = True, trim = True\<rparr> s \<noteq> []"
        by (cases v) (simp_all add: applySetters_def path_invalid_def)
      from k[OF this] Some assms False show ?thesis
        by (cases v) (auto simp add: applySetters_def path_invalid_def)
    qed
  qed
qed

text \<open>
  Whatever the two values passed to \<open>Message.create\<close>: if the call adds to the
  collection, it adds one document, whose \<open>username\<close> and \<open>content\<close> are the
  well-formed replacements of non-empty trimmed strings, the trimmed arguments where
  these are strings.
\<close>

lemma Message_create_persisted:
  assumes "Message_create e (JObj [(js ''username'', x), (js ''content'', y)]) w = (r, w')"
    and "collection w' \<noteq> collection w"
  shows "\<exists>doc su sc. collection w' = collection w @ [doc]
     \<and> js_get doc (js ''username'') = JStr (toWellFormed (String_trim su))
     \<and> String_trim su \<noteq> []
     \<and> js_get doc (js ''content'') = JStr (toWellFormed (String_trim sc))
     \<and> String_trim sc \<noteq> []
     \<and> (\<forall>u. x = JStr u \<longrightarrow> su = u) \<and> (\<forall>c. y = JStr c \<longrightarrow> sc = c)"
proof -
  let ?o = "\<lparr>required = True, trim = True\<rparr>"
  let ?rx = "applySetters (castString e) ?o x"
  let ?ry = "applySetters (castString e) ?o y"
  have vals: "set_paths (castString e) (paths messageSchema)
        (JObj [(js ''username'', x), (js ''content'', y)])
      = [(js ''username'', ?o, ?rx), (js ''content'', ?o, ?ry)]"
    by (simp add: messageSchema_def)
  from assms have valid: "\<not> path_invalid ?o ?rx" "\<not> path_invalid ?o ?ry" and ok: "insert_ok e"
    by (auto simp add: Message_create_def Model_create_def vals Let_def split: if_splits)
  from setter_valid[OF valid(1)] obtain su where su: "?rx = Some (JStr (String_trim su))"
    "String_trim su \<noteq> []" "\<forall>u. x = JStr u \<longrightarrow> su = u" by blast
  from setter_valid[OF valid(2)] obtain sc where sc: "?ry = Some (JStr (String_trim sc))"
    "String_trim sc \<noteq> []" "\<forall>c. y = JStr c \<longrightarrow> sc = c" by blast
  let ?doc = "JObj [(js ''_id'', JObjectId (new_ObjectId e)),
                     (js ''username'', JStr (String_trim su)),
                     (js ''content'', JStr (String_trim sc)),
                     (js ''createdAt'', JDate (Date_now e)),
                     (js ''updatedAt'', JDate (Date_now e)),
                     (js ''__v'', JNum NumZero)]"
  let ?stored = "JObj [(js ''_id'', JObjectId (new_ObjectId e)),
                     (js ''username'', JStr (toWellFormed (String_trim su))),
                     (js ''content'', JStr (toWellFormed (String_trim sc))),
                     (js ''createdAt'', JDate (Date_now e)),
                     (js ''updatedAt'', JDate (Date_now e)),
                     (js ''__v'', JNum NumZero)]"
  have "w' = insertOne ?doc w"
    using assms(1) valid ok
    by (simp add: Message_create_def Model_create_def vals Let_def su(1) sc(1) new_document_def
          messageSchema_def)
  then have "collection w' = collection w @ [?stored]" by (simp add: insertOne_def)
  moreover have "js_get ?stored (js ''username'') = JStr (toWellFormed (String_trim su))"
    "js_get ?stored (js ''content'') = JStr (toWellFormed (String_trim sc))"
    by (simp_all add: saved_document_get del: js_get.simps)
  ultimately show ?thesis using su(2,3) sc(2,3) by blast
qed

lemma connectDB_example: "connectDB example_env example_world = (Returned (), connected_world)"
  by (simp add: connectDB_def connectDB_begin_def connectDB_resume_def console_log_def
      example_env_def example_world_def connected_world_def)

text \<open>
  A field that is a non-empty string of whitespace only passes the handler's check and
  fails the schema's: the awaited \<open>Message.create\<close> throws, the handler has no
  \<open>catch\<close>, and nothing is stored.
\<close>

lemma POST_whitespace_only:
  assumes "js_get b (js ''username'') = JStr u"
    and "js_get b (js ''content'') = JStr c"
    and "u \<noteq> []" and "c \<noteq> []"
    and "String_trim u = [] \<or> String_trim c = []"
    and "1 \<le> readyState w \<or> connect_ok e"
  shows "\<exists>paths. fst (POST e (Some b) w) = Threw (ValidationError paths)"
    and "collection (snd (POST e (Some b) w)) = collection w"
    and "change_feed (snd (POST e (Some b) w)) = change_feed w"
proof -
  from assms(6) obtain w1 where 1: "connectDB e w = (Returned (), w1)"
    and 2: "collection w1 = collection w" "change_feed w1 = change_feed w"
    by (cases e w rule: connectDB_cases) auto
  from js_get_JStr_object[OF assms(1)] have nn: "b \<noteq> JNull" "b \<noteq> JUndefined" by simp_all
  have p: "POST e (Some b) w =
    (Threw (ValidationError ((if String_trim u = [] then [js ''username''] else [])
                             @ (if String_trim c = [] then [js ''content''] else []))), w1)"
    using assms(1-5)
    by (simp add: POST_body[OF 1 nn] Message_create_strings del: js_get.simps)
  show "\<exists>paths. fst (POST e (Some b) w) = Threw (ValidationError paths)"
    unfolding p by simp
  show "collection (snd (POST e (Some b) w)) = collection w"
    unfolding p using 2 by simp
  show "change_feed (snd (POST e (Some b) w)) = change_feed w"
    unfolding p using 2 by simp
qed

text \<open>
  C2, at the input \<open>{ username: "   ", content: "hi" }\<close> in a fresh process whose
  database is reachable: the handler throws the ValidationError of \<open>Message.create\<close>
  and returns no response of its own, so the answer is not the 400 of the handler's check;
  no message is stored and no change event is emitted.
\<close>

theorem POST_whitespace_username_throws:
  "POST example_env
     (Some (JObj [(js ''username'', JStr (js ''   '')), (js ''content'', JStr (js ''hi''))]))
     example_world
   = (Threw (ValidationError [js ''username'']), connected_world)
   \<and> collection connected_world = [] \<and> change_feed connected_world = []"
proof -
  have t: "String_trim (js ''   '') = []" "String_trim (js ''hi'') = js ''hi''"
    "js ''   '' \<noteq> []" "js ''hi'' \<noteq> []"
    by (simp_all add: String_trim_def is_js_space_def js_def)
  show ?thesis
    by (simp add: POST_body[OF connectDB_example] Message_create_strings t)
       (simp add: connected_world_def)
qed

theorem POST_whitespace_username_not_400:
  "fst (POST example_env
     (Some (JObj [(js ''username'', JStr (js ''   '')), (js ''content'', JStr (js ''hi''))]))
     example_world)
   \<noteq> Returned \<lparr>status = 400,
                 headers = [(js ''content-type'', js ''application/json'')],
                 body = Json (JObj [(js ''error'', JStr (js ''Invalid input''))])\<rparr>"
  using POST_whitespace_username_throws by simp

text \<open>
  C4: when the body is a JSON value other than \<open>null\<close> (an object, in particular)
  whose \<open>username\<close> or \<open>content\<close> is missing or the empty string, the call stores no
  message and emits no change event, and, the database connection being open or opening
  successfully, the handler returns status 400 with the body
  \<open>{ error: "Invalid input" }\<close>. (When the connection cannot be opened, \<open>connectDB\<close>
  ends the process before the handler looks at the body.)
\<close>

theorem POST_missing_or_empty:
  assumes "b \<noteq> JNull" and "b \<noteq> JUndefined"
    and "js_get b (js ''username'') = JUndefined \<or> js_get b (js ''username'') = JStr []
         \<or> js_get b (js ''content'') = JUndefined \<or> js_get b (js ''content'') = JStr []"
  shows "collection (snd (POST e (Some b) w)) = collection w
       \<and> change_feed (snd (POST e (Some b) w)) = change_feed w
       \<and> fst (POST e (Some b) w) =
           (if 1 \<le> readyState w \<or> connect_ok e
            then Returned \<lparr>status = 400,
                           headers = [(js ''content-type'', js ''application/json'')],
                           body = Json (JObj [(js ''error'', JStr (js ''Invalid input''))])\<rparr>
            else Exited 1)"
proof (cases e w rule: connectDB_cases)
  case (1 w1)
  from assms(3) have "\<not> truthy (js_get b (js ''username''))
      \<or> \<not> truthy (js_get b (js ''content''))"
    by auto
  with 1 show ?thesis
    by (simp add: POST_body[OF 1(1) assms(1,2)] NextResponse_json_def del: js_get.simps)
next
  case (2 w1)
  then show ?thesis by (simp add: POST_Exited[OF 2(1)])
qed

theorem POST_missing_or_empty_witness:
  "JObj [(js ''username'', JStr []), (js ''content'', JStr (js ''hi''))] \<noteq> JNull
   \<and> JObj [(js ''username'', JStr []), (js ''content'', JStr (js ''hi''))] \<noteq> JUndefined
   \<and> js_get (JObj [(js ''username'', JStr []), (js ''content'', JStr (js ''hi''))])
        (js ''username'') = JStr []
   \<and> collection (snd (POST example_env
        (Some (JObj [(js ''username'', JStr []), (js ''content'', JStr (js ''hi''))]))
        example_world)) = []
   \<and> change_feed (snd (POST example_env
        (Some (JObj [(js ''username'', JStr []), (js ''content'', JStr (js ''hi''))]))
        example_world)) = []
   \<and> fst (POST example_env
        (Some (JObj [(js ''username'', JStr []), (js ''content'', JStr (js ''hi''))]))
        example_world) =
       Returned \<lparr>status = 400,
                  headers = [(js ''content-type'', js ''application/json'')],
                  body = Json (JObj [(js ''error'', JStr (js ''Invalid input''))])\<rparr>"
proof -
  let ?b = "JObj [(js ''username'', JStr []), (js ''content'', JStr (js ''hi''))]"
  have h: "js_get ?b (js ''username'') = JStr []" by simp
  have e: "connect_ok example_env" "collection example_world = []"
    "change_feed example_world = []"
    by (simp_all add: example_env_def example_world_def)
  from POST_missing_or_empty[of ?b example_env example_world] h e
  show ?thesis by (simp del: js_get.simps)
qed

text \<open>
  C3: when \<open>username\<close> and \<open>content\<close> are strings that are not empty after trimming,
  the database connection is open or opens successfully and the store accepts the insert,
  the handler stores one new message and the store emits its insertion event; the stored
  \<open>username\<close> and \<open>content\<close> are the submitted strings as the schema trims them and
  the store holds them (in UTF-8, so with U+FFFD for an unpaired surrogate; a well-formed
  string is held as trimmed); and the handler returns status 201 with the body
  \<open>{ success: true, messageId }\<close>, where \<open>messageId\<close> is the \<open>_id\<close> of the stored
  message.
\<close>

theorem POST_valid:
  assumes "js_get b (js ''username'') = JStr u"
    and "js_get b (js ''content'') = JStr c"
    and "String_trim u \<noteq> []" and "String_trim c \<noteq> []"
    and "1 \<le> readyState w \<or> connect_ok e" and "insert_ok e"
  shows "\<exists>w' doc.
           POST e (Some b) w =
             (Returned \<lparr>status = 201,
                        headers = [(js ''content-type'', js ''application/json'')],
                        body = Json (JObj [(js ''success'', JBool True),
                                           (js ''messageId'', js_get doc (js ''_id''))])\<rparr>, w')
         \<and> collection w' = collection w @ [doc]
         \<and> change_feed w' = change_feed w @ [\<lparr>operationType = js ''insert'', fullDocument = doc\<rparr>]
         \<and> js_get doc (js ''_id'') = JObjectId (new_ObjectId e)
         \<and> js_get doc (js ''username'') = JStr (toWellFormed (String_trim u))
         \<and> js_get doc (js ''content'') = JStr (toWellFormed (String_trim c))
         \<and> (isWellFormed u \<longrightarrow> js_get doc (js ''username'') = JStr (String_trim u))
         \<and> (isWellFormed c \<longrightarrow> js_get doc (js ''content'') = JStr (String_trim c))"
proof (cases e w rule: connectDB_cases)
  case (1 w1)
  from assms(3,4) have ne: "u \<noteq> []" "c \<noteq> []" by (auto simp add: String_trim_def)
  from js_get_JStr_object[OF assms(1)] have nn: "b \<noteq> JNull" "b \<noteq> JUndefined" by simp_all
  have wf: "isWellFormed u \<Longrightarrow> toWellFormed (String_trim u) = String_trim u"
    "isWellFormed c \<Longrightarrow> toWellFormed (String_trim c) = String_trim c"
    using isWellFormed_trim by (simp_all add: isWellFormed_def)
  show ?thesis
    using assms ne 1 wf
    by (simp add: POST_body[OF 1(1) nn] Message_create_strings NextResponse_json_def Let_def
          saved_document_get del: js_get.simps)
next
  case (2 w1)
  with assms show ?thesis by simp
qed

theorem POST_valid_witness:
  "String_trim (js ''alice'') = js ''alice'' \<and> String_trim (js ''hello'') = js ''hello''
   \<and> connect_ok example_env \<and> insert_ok example_env
   \<and> (\<exists>w' doc.
         POST example_env
           (Some (JObj [(js ''username'', JStr (js ''alice'')),
                        (js ''content'', JStr (js ''hello''))])) example_world =
           (Returned \<lparr>status = 201,
                      headers = [(js ''content-type'', js ''application/json'')],
                      body = Json (JObj [(js ''success'', JBool True),
                                         (js ''messageId'', js_get doc (js ''_id''))])\<rparr>, w')
       \<and> collection w' = collection example_world @ [doc]
       \<and> change_feed w' = change_feed example_world
            @ [\<lparr>operationType = js ''insert'', fullDocument = doc\<rparr>]
       \<and> js_get doc (js ''_id'') = JObjectId (new_ObjectId example_env)
       \<and> js_get doc (js ''username'') = JStr (js ''alice'')
       \<and> js_get doc (js ''content'') = JStr (js ''hello''))"
proof -
  let ?ps = "[(js ''username'', JStr (js ''alice'')), (js ''content'', JStr (js ''hello''))]"
  have t: "String_trim (js ''alice'') = js ''alice''" "String_trim (js ''hello'') = js ''hello''"
    by (simp_all add: String_trim_def is_js_space_def js_def)
  have f: "toWellFormed (js ''alice'') = js ''alice''" "toWellFormed (js ''hello'') = js ''hello''"
    by (simp_all add: js_def is_high_surrogate_def is_low_surrogate_def)
  have n: "js ''alice'' \<noteq> []" "js ''hello'' \<noteq> []" by simp_all
  have g: "js_get (JObj ?ps) (js ''username'') = JStr (js ''alice'')"
    "js_get (JObj ?ps) (js ''content'') = JStr (js ''hello'')"
    by simp_all
  have e: "connect_ok example_env" "insert_ok example_env" by (simp_all add: example_env_def)
  have "1 \<le> readyState example_world \<or> connect_ok example_env" using e by simp
  from POST_valid[OF g, unfolded t f, OF n this e(2)]
  obtain w' doc where
    "POST example_env (Some (JObj ?ps)) example_world =
           (Returned \<lparr>status = 201,
                      headers = [(js ''content-type'', js ''application/json'')],
                      body = Json (JObj [(js ''success'', JBool True),
                                         (js ''messageId'', js_get doc (js ''_id''))])\<rparr>, w')"
    "collection w' = collection example_world @ [doc]"
    "change_feed w' = change_feed example_world
            @ [\<lparr>operationType = js ''insert'', fullDocument = doc\<rparr>]"
    "js_get doc (js ''_id'') = JObjectId (new_ObjectId example_env)"
    "js_get doc (js ''username'') = JStr (js ''alice'')"
    "js_get doc (js ''content'') = JStr (js ''hello'')"
    by blast
  with t e show ?thesis by blast
qed

text \<open>
  C8, as the code and the store have it: whenever a call of the handler adds to the
  collection, it adds one document, whose \<open>username\<close> and \<open>content\<close> are well-formed
  strings that are not empty and neither start nor end with whitespace. Where the
  submitted field is a string, the stored one is that string with the whitespace at both
  ends removed (the submitted string is the trimmed one between two runs of whitespace)
  and with every unpaired surrogate replaced by U+FFFD, as the store holds strings in
  UTF-8; for a well-formed submitted string it is the trimmed string itself.
\<close>

theorem persisted_fields_trimmed:
  assumes "POST e (Some b) w = (r, w')" and "collection w' \<noteq> collection w"
  shows "\<exists>doc su sc.
           collection w' = collection w @ [doc]
         \<and> js_get doc (js ''username'') = JStr su \<and> js_get doc (js ''content'') = JStr sc
         \<and> su \<noteq> [] \<and> sc \<noteq> []
         \<and> isWellFormed su \<and> isWellFormed sc
         \<and> \<not> is_js_space (hd su) \<and> \<not> is_js_space (last su)
         \<and> \<not> is_js_space (hd sc) \<and> \<not> is_js_space (last sc)
         \<and> (\<forall>u. js_get b (js ''username'') = JStr u \<longrightarrow>
               su = toWellFormed (String_trim u)
               \<and> (isWellFormed u \<longrightarrow> su = String_trim u)
               \<and> (\<exists>pre post. u = pre @ String_trim u @ post
                     \<and> list_all is_js_space pre \<and> list_all is_js_space post))
         \<and> (\<forall>c. js_get b (js ''content'') = JStr c \<longrightarrow>
               sc = toWellFormed (String_trim c)
               \<and> (isWellFormed c \<longrightarrow> sc = String_trim c)
               \<and> (\<exists>pre post. c = pre @ String_trim c @ post
                     \<and> list_all is_js_space pre \<and> list_all is_js_space post))"
proof (cases e w rule: connectDB_cases)
  case (1 w1)
  let ?x = "js_get b (js ''username'')"
  let ?y = "js_get b (js ''content'')"
  have nn: "b \<noteq> JNull" "b \<noteq> JUndefined"
    using assms 1 POST_not_object[OF 1(1), of b] by auto
  have guard: "truthy ?x" "truthy ?y"
    using assms 1 by (auto simp add: POST_body[OF 1(1) nn] simp del: js_get.simps split: if_splits)
  obtain r2 where m: "Message_create e (JObj [(js ''username'', ?x), (js ''content'', ?y)]) w1
      = (r2, w')"
    using assms(1) guard
    by (cases "Message_create e (JObj [(js ''username'', ?x), (js ''content'', ?y)]) w1";
        cases "fst (Message_create e (JObj [(js ''username'', ?x), (js ''content'', ?y)]) w1)")
       (auto simp add: POST_body[OF 1(1) nn] simp del: js_get.simps)
  from assms(2) 1(3) have "collection w' \<noteq> collection w1" by simp
  from Message_create_persisted[OF m this] 1(3)
  obtain doc tu tc where d: "collection w' = collection w @ [doc]"
    "js_get doc (js ''username'') = JStr (toWellFormed (String_trim tu))" "String_trim tu \<noteq> []"
    "js_get doc (js ''content'') = JStr (toWellFormed (String_trim tc))" "String_trim tc \<noteq> []"
    "\<forall>u. ?x = JStr u \<longrightarrow> tu = u" "\<forall>c. ?y = JStr c \<longrightarrow> tc = c"
    by auto
  define su where "su = toWellFormed (String_trim tu)"
  define sc where "sc = toWellFormed (String_trim tc)"
  have ne: "su \<noteq> []" "sc \<noteq> []" using d(3,5) by (simp_all add: su_def sc_def)
  have wf: "isWellFormed su" "isWellFormed sc"
    by (simp_all add: su_def sc_def toWellFormed_idem)
  have eu: "\<not> is_js_space (hd su)" "\<not> is_js_space (last su)"
    using String_trim_ends[OF d(3)] toWellFormed_not_space[OF d(3)] by (simp_all add: su_def)
  have ec: "\<not> is_js_space (hd sc)" "\<not> is_js_space (last sc)"
    using String_trim_ends[OF d(5)] toWellFormed_not_space[OF d(5)] by (simp_all add: sc_def)
  have pu: "\<forall>u. ?x = JStr u \<longrightarrow> su = toWellFormed (String_trim u)
      \<and> (isWellFormed u \<longrightarrow> su = String_trim u)
      \<and> (\<exists>pre post. u = pre @ String_trim u @ post
            \<and> list_all is_js_space pre \<and> list_all is_js_space post)"
  proof (intro allI impI conjI)
    fix u assume "?x = JStr u"
    with d(6) have tu: "tu = u" by blast
    show "su = toWellFormed (String_trim u)" by (simp add: su_def tu)
    show "su = String_trim u" if "isWellFormed u"
      using isWellFormed_trim[OF that] by (simp add: su_def tu isWellFormed_def)
    show "\<exists>pre post. u = pre @ String_trim u @ post
            \<and> list_all is_js_space pre \<and> list_all is_js_space post"
      by (rule String_trim_decomp)
  qed
  have pc: "\<forall>c. ?y = JStr c \<longrightarrow> sc = toWellFormed (String_trim c)
      \<and> (isWellFormed c \<longrightarrow> sc = String_trim c)
      \<and> (\<exists>pre post. c = pre @ String_trim c @ post
            \<and> list_all is_js_space pre \<and> list_all is_js_space post)"
  proof (intro allI impI conjI)
    fix c assume "?y = JStr c"
    with d(7) have tc: "tc = c" by blast
    show "sc = toWellFormed (String_trim c)" by (simp add: sc_def tc)
    show "sc = String_trim c" if "isWellFormed c"
      using isWellFormed_trim[OF that] by (simp add: sc_def tc isWellFormed_def)
    show "\<exists>pre post. c = pre @ String_trim c @ post
            \<and> list_all is_js_space pre \<and> list_all is_js_space post"
      by (rule String_trim_decomp)
  qed
  have "collection w' = collection w @ [doc]
         \<and> js_get doc (js ''username'') = JStr su \<and> js_get doc (js ''content'') = JStr sc"
    using d(1,2,4) by (simp add: su_def sc_def)
  with ne wf eu ec pu pc show ?thesis by blast
next
  case (2 w1)
  with assms show ?thesis by (simp add: POST_Exited[OF 2(1)])
qed

lemma POST_padded_alice:
  "POST example_env
     (Some (JObj [(js ''username'', JStr (js '' alice  '')),
                  (js ''content'', JStr (js ''hello''))])) example_world =
   (Returned (NextResponse_json
                   (JObj [(js ''success'', JBool True),
                          (js ''messageId'', JObjectId (js ''64b7f3a2c9e1d4a5b6c7d8e9''))]) 201),
    connected_world\<lparr>collection := [alice_document],
      change_feed := [\<lparr>operationType = js ''insert'', fullDocument = alice_document\<rparr>]\<rparr>)"
proof -
  have t: "String_trim (js '' alice  '') = js ''alice''" "String_trim (js ''hello'') = js ''hello''"
    by (simp_all add: String_trim_def is_js_space_def js_def)
  have f: "toWellFormed (js ''alice'') = js ''alice''" "toWellFormed (js ''hello'') = js ''hello''"
    by (simp_all add: js_def is_high_surrogate_def is_low_surrogate_def)
  have n: "js '' alice  '' \<noteq> []" "js ''hello'' \<noteq> []" "insert_ok example_env"
    "new_ObjectId example_env = js ''64b7f3a2c9e1d4a5b6c7d8e9''"
    "Date_now example_env = js ''2024-01-01T00:00:00.000Z''"
    by (simp_all add: example_env_def)
  show ?thesis
    by (simp add: POST_body[OF connectDB_example] Message_create_strings t f n
          saved_document_get alice_document_def Let_def)
       (simp add: connected_world_def)
qed

theorem persisted_fields_trimmed_witness:
  "collection (snd (POST example_env
      (Some (JObj [(js ''username'', JStr (js '' alice  '')),
                   (js ''content'', JStr (js ''hello''))])) example_world))
     \<noteq> collection example_world
   \<and> String_trim (js '' alice  '') = js ''alice''
   \<and> String_trim (js ''hello'') = js ''hello''
   \<and> (\<exists>doc. collection (snd (POST example_env
        (Some (JObj [(js ''username'', JStr (js '' alice  '')),
                     (js ''content'', JStr (js ''hello''))])) example_world))
          = collection example_world @ [doc]
        \<and> js_get doc (js ''username'') = JStr (js ''alice'')
        \<and> js_get doc (js ''content'') = JStr (js ''hello''))"
proof -
  let ?b = "JObj [(js ''username'', JStr (js '' alice  '')), (js ''content'', JStr (js ''hello''))]"
  let ?p = "POST example_env (Some ?b) example_world"
  have t: "String_trim (js '' alice  '') = js ''alice''" "String_trim (js ''hello'') = js ''hello''"
    by (simp_all add: String_trim_def is_js_space_def js_def)
  have f: "toWellFormed (js ''alice'') = js ''alice''" "toWellFormed (js ''hello'') = js ''hello''"
    by (simp_all add: js_def is_high_surrogate_def is_low_surrogate_def)
  have c: "collection (snd ?p) \<noteq> collection example_world"
    unfolding POST_padded_alice by (simp add: example_world_def)
  have g: "js_get ?b (js ''username'') = JStr (js '' alice  '')"
    "js_get ?b (js ''content'') = JStr (js ''hello'')"
    by simp_all
  from persisted_fields_trimmed[OF surjective_pairing c] obtain doc su sc where
    d: "collection (snd ?p) = collection example_world @ [doc]"
      "js_get doc (js ''username'') = JStr su" "js_get doc (js ''content'') = JStr sc"
      "\<forall>u. js_get ?b (js ''username'') = JStr u \<longrightarrow> su = toWellFormed (String_trim u)
          \<and> (isWellFormed u \<longrightarrow> su = String_trim u)
          \<and> (\<exists>pre post. u = pre @ String_trim u @ post
                \<and> list_all is_js_space pre \<and> list_all is_js_space post)"
      "\<forall>c. js_get ?b (js ''content'') = JStr c \<longrightarrow> sc = toWellFormed (String_trim c)
          \<and> (isWellFormed c \<longrightarrow> sc = String_trim c)
          \<and> (\<exists>pre post. c = pre @ String_trim c @ post
                \<and> list_all is_js_space pre \<and> list_all is_js_space post)"
    by blast
  from d(4) g(1) have "su = toWellFormed (String_trim (js '' alice  ''))" by blast
  moreover from d(5) g(2) have "sc = toWellFormed (String_trim (js ''hello''))" by blast
  ultimately show ?thesis using d(1-3) c t f by auto
qed

text \<open>
  C8 as the specification states it fails at a body a client can send,
  \<open>{ "username": "\ud800x", "content": "hi" }\<close>: the handler answers with status 201
  and the stored \<open>username\<close> is U+FFFD followed by \<open>x\<close>, which is not the submitted
  string with its whitespace removed (trimming leaves that string as it is).
\<close>

theorem stored_username_counterexample:
  "POST example_env
     (Some (JObj [(js ''username'', JStr [0xD800, 0x78]), (js ''content'', JStr (js ''hi''))]))
     example_world =
   (Returned \<lparr>status = 201,
              headers = [(js ''content-type'', js ''application/json'')],
              body = Json (JObj [(js ''success'', JBool True),
                       (js ''messageId'', JObjectId (js ''64b7f3a2c9e1d4a5b6c7d8e9''))])\<rparr>,
    connected_world\<lparr>collection := [lone_surrogate_document],
      change_feed := [\<lparr>operationType = js ''insert'',
                       fullDocument = lone_surrogate_document\<rparr>]\<rparr>)
   \<and> js_get lone_surrogate_document (js ''username'') = JStr [0xFFFD, 0x78]
   \<and> String_trim [0xD800, 0x78] = [0xD800, 0x78]
   \<and> JStr [0xFFFD, 0x78] \<noteq> JStr (String_trim [0xD800, 0x78])"
proof -
  have t: "String_trim [0xD800, 0x78] = [0xD800, 0x78]" "String_trim (js ''hi'') = js ''hi''"
    by (simp_all add: String_trim_def is_js_space_def js_def)
  have f: "toWellFormed [0xD800, 0x78] = [0xFFFD, 0x78]" "toWellFormed (js ''hi'') = js ''hi''"
    by (simp_all add: js_def is_high_surrogate_def is_low_surrogate_def)
  have n: "js ''hi'' \<noteq> []" "insert_ok example_env"
    "new_ObjectId example_env = js ''64b7f3a2c9e1d4a5b6c7d8e9''"
    "Date_now example_env = js ''2024-01-01T00:00:00.000Z''"
    by (simp_all add: example_env_def)
  have p: "POST example_env
     (Some (JObj [(js ''username'', JStr [0xD800, 0x78]), (js ''content'', JStr (js ''hi''))]))
     example_world =
   (Returned \<lparr>status = 201,
              headers = [(js ''content-type'', js ''application/json'')],
              body = Json (JObj [(js ''success'', JBool True),
                       (js ''messageId'', JObjectId (js ''64b7f3a2c9e1d4a5b6c7d8e9''))])\<rparr>,
    connected_world\<lparr>collection := [lone_surrogate_document],
      change_feed := [\<lparr>operationType = js ''insert'',
                       fullDocument = lone_surrogate_document\<rparr>]\<rparr>)"
    by (simp add: POST_body[OF connectDB_example] Message_create_strings t f n
          saved_document_get lone_surrogate_document_def NextResponse_json_def Let_def
          is_high_surrogate_def is_low_surrogate_def)
       (simp add: connected_world_def)
  have g: "js_get lone_surrogate_document (js ''username'') = JStr [0xFFFD, 0x78]"
    by (simp add: lone_surrogate_document_def saved_document_get del: js_get.simps)
  have d: "JStr [0xFFFD, 0x78] \<noteq> JStr (String_trim [0xD800, 0x78])"
    unfolding t by simp
  from p g t(1) d show ?thesis by (simp only: simp_thms)
qed

section \<open>Properties of the streaming endpoint\<close>

text \<open>
  C9: whatever the state of the process, the response the handler returns carries the
  three headers \<open>Content-Type: text/event-stream\<close>, \<open>Cache-Control: no-cache\<close> and
  \<open>Connection: keep-alive\<close>, each once and no other, with the stream as its body.
\<close>

theorem GET_response_headers:
  "headers (fst (fst (GET w))) =
     [(js ''Content-Type'', js ''text/event-stream''),
      (js ''Cache-Control'', js ''no-cache''),
      (js ''Connection'', js ''keep-alive'')]
   \<and> distinct (map fst (headers (fst (fst (GET w)))))
   \<and> status (fst (fst (GET w))) = 200
   \<and> body (fst (fst (GET w))) = Stream"
  by (simp add: GET_def js_def)

lemma GET_connection: "snd (fst (GET w)) = open_connection"
  by (simp add: GET_def open_connection_def)

lemma dispatch_noninsert:
  "operationType change \<noteq> js ''insert'' \<Longrightarrow> dispatch (Change change) c = (Returned (), c)"
  by (simp add: on_change_def)

lemma dispatch_insert_open:
  "operationType change = js ''insert'' \<Longrightarrow> \<not> changeStream_closed c
   \<Longrightarrow> \<not> controller_closed c \<Longrightarrow>
   dispatch (Change change) c =
     (Returned (), c\<lparr>enqueued := enqueued c
        @ [TextEncoder_encode (messageString (fullDocument change))]\<rparr>)"
  by (simp add: on_change_def controller_enqueue_def)

text \<open>
  A feed offered to an open connection: one frame per insertion, in the order of the
  feed, and nothing for the other events.
\<close>

lemma run_changes_open:
  assumes "\<not> changeStream_closed c" "\<not> controller_closed c"
  shows "run (map Change changes) c =
     c\<lparr>enqueued := enqueued c @
        map (\<lambda>ch. TextEncoder_encode (messageString (fullDocument ch)))
          (filter (\<lambda>ch. operationType ch = js ''insert'') changes)\<rparr>"
  using assms
proof (induction changes arbitrary: c)
  case Nil
  then show ?case by simp
next
  case (Cons ch changes)
  show ?case
  proof (cases "operationType ch = js ''insert''")
    case True
    let ?c = "c\<lparr>enqueued := enqueued c
      @ [TextEncoder_encode (messageString (fullDocument ch))]\<rparr>"
    have "\<not> changeStream_closed ?c" "\<not> controller_closed ?c" using Cons.prems by simp_all
    from Cons.IH[OF this] dispatch_insert_open[OF True Cons.prems] True
    show ?thesis by simp
  next
    case False
    from Cons.IH[OF Cons.prems] dispatch_noninsert[OF False] False
    show ?thesis by simp
  qed
qed

text \<open>One event enqueues nothing, or it is an insertion and enqueues its frame.\<close>

lemma dispatch_enqueued:
  "enqueued (snd (dispatch ev c)) = enqueued c
   \<or> (\<exists>ch. ev = Change ch \<and> operationType ch = js ''insert''
         \<and> enqueued (snd (dispatch ev c)) =
             enqueued c @ [TextEncoder_encode (messageString (fullDocument ch))])"
  by (cases ev)
     (auto simp add: on_change_def on_abort_def controller_enqueue_def controller_close_def
        changeStream_close_def)

lemma run_enqueued:
  "\<exists>ins. enqueued (run evs c) =
       enqueued c @ map (\<lambda>ch. TextEncoder_encode (messageString (fullDocument ch))) ins
     \<and> (\<forall>ch\<in>set ins. Change ch \<in> set evs \<and> operationType ch = js ''insert'')"
proof (induction evs arbitrary: c)
  case Nil
  show ?case by (rule exI[where x = "[]"]) simp
next
  case (Cons ev evs)
  define f where "f = (\<lambda>ch::change_event. TextEncoder_encode (messageString (fullDocument ch)))"
  define c' where "c' = snd (dispatch ev c)"
  from Cons.IH[of c'] obtain ins where
    i: "enqueued (run evs c') = enqueued c' @ map f ins"
    and j: "\<forall>ch\<in>set ins. Change ch \<in> set evs \<and> operationType ch = js ''insert''"
    unfolding f_def by (elim exE conjE)
  have r: "run (ev # evs) c = run evs c'" by (simp add: c'_def)
  from dispatch_enqueued[of ev c]
  have "enqueued c' = enqueued c
   \<or> (\<exists>ch. ev = Change ch \<and> operationType ch = js ''insert''
         \<and> enqueued c' = enqueued c @ [f ch])"
    unfolding f_def c'_def .
  then have "\<exists>ins. enqueued (run (ev # evs) c) = enqueued c @ map f ins
     \<and> (\<forall>ch\<in>set ins. Change ch \<in> set (ev # evs) \<and> operationType ch = js ''insert'')"
  proof
    assume e: "enqueued c' = enqueued c"
    show ?thesis
    proof (rule exI[where x = ins], intro conjI ballI)
      show "enqueued (run (ev # evs) c) = enqueued c @ map f ins"
        unfolding r i e ..
    next
      fix ch assume "ch \<in> set ins"
      with j show "Change ch \<in> set (ev # evs)" by simp
    next
      fix ch assume "ch \<in> set ins"
      with j show "operationType ch = js ''insert''" by blast
    qed
  next
    assume "\<exists>ch. ev = Change ch \<and> operationType ch = js ''insert''
         \<and> enqueued c' = enqueued c @ [f ch]"
    then obtain ch0 where c: "ev = Change ch0" "operationType ch0 = js ''insert''"
      "enqueued c' = enqueued c @ [f ch0]" by (elim exE conjE)
    show ?thesis
    proof (rule exI[where x = "ch0 # ins"], intro conjI ballI)
      show "enqueued (run (ev # evs) c) = enqueued c @ map f (ch0 # ins)"
        unfolding r i c(3) by simp
    next
      fix ch assume "ch \<in> set (ch0 # ins)"
      with j c(1) show "Change ch \<in> set (ev # evs)" by auto
    next
      fix ch assume "ch \<in> set (ch0 # ins)"
      with j c(2) show "operationType ch = js ''insert''" by auto
    qed
  qed
  then show ?case unfolding f_def .
qed

lemma dispatch_signal:
  "Abort \<noteq> ev \<Longrightarrow> signal_aborted (snd (dispatch ev c)) = signal_aborted c"
  by (cases ev) (auto simp add: on_change_def controller_enqueue_def)

lemma run_signal:
  "Abort \<notin> set evs \<Longrightarrow> signal_aborted (run evs c) = signal_aborted c"
  by (induction evs arbitrary: c) (simp_all add: dispatch_signal)

text \<open>
  The abort listener on a connection whose signal has not fired: both are closed after
  it and nothing is enqueued, also when the stream was cancelled before and
  \<open>controller.close\<close> throws.
\<close>

lemma dispatch_Abort:
  assumes "\<not> signal_aborted c"
  shows "changeStream_closed (snd (dispatch Abort c))"
    and "controller_closed (snd (dispatch Abort c))"
    and "signal_aborted (snd (dispatch Abort c))"
    and "enqueued (snd (dispatch Abort c)) = enqueued c"
    and "\<not> controller_closed c \<Longrightarrow> fst (dispatch Abort c) = Returned ()"
  using assms
  by (simp_all add: on_abort_def controller_close_def changeStream_close_def)

text \<open>After the teardown no event changes the connection.\<close>

lemma dispatch_torn_down:
  "changeStream_closed c \<Longrightarrow> controller_closed c \<Longrightarrow> signal_aborted c
   \<Longrightarrow> snd (dispatch ev c) = c"
  by (cases ev) simp_all

lemma run_torn_down:
  "changeStream_closed c \<Longrightarrow> controller_closed c \<Longrightarrow> signal_aborted c \<Longrightarrow> run evs c = c"
  by (induction evs) (simp_all add: dispatch_torn_down)

text \<open>The change listener on a closed controller enqueues nothing.\<close>

lemma on_change_closed:
  "controller_closed c \<Longrightarrow> snd (on_change change c) = c"
  by (simp add: on_change_def controller_enqueue_def)

lemma only_changes:
  "Abort \<notin> set evs \<Longrightarrow> Cancel \<notin> set evs \<Longrightarrow> \<exists>changes. evs = map Change changes"
proof (induction evs)
  case Nil
  then show ?case by simp
next
  case (Cons ev evs)
  then obtain changes where "evs = map Change changes" by auto
  moreover from Cons.prems obtain ch where "ev = Change ch" by (cases ev) auto
  ultimately have "ev # evs = map Change (ch # changes)" by simp
  then show ?case by (rule exI[where x = "ch # changes"])
qed

text \<open>
  C5: a change event whose operation type is not \<open>insert\<close> leaves the connection as it
  is, nothing is enqueued; of a feed offered to the connection the handler has just
  opened, exactly the insertions are enqueued, one frame each, in the order of the feed;
  and whatever the events and the connection, every frame enqueued is the frame of an
  insertion among the events.
\<close>

theorem only_inserts_enqueue:
  "(operationType change \<noteq> js ''insert'' \<longrightarrow> dispatch (Change change) c = (Returned (), c))
   \<and> run (map Change changes) (snd (fst (GET w))) =
       (snd (fst (GET w)))\<lparr>enqueued :=
          map (\<lambda>ch. TextEncoder_encode (messageString (fullDocument ch)))
            (filter (\<lambda>ch. operationType ch = js ''insert'') changes)\<rparr>
   \<and> (\<exists>ins. enqueued (run evs c) =
          enqueued c @ map (\<lambda>ch. TextEncoder_encode (messageString (fullDocument ch))) ins
        \<and> (\<forall>ch\<in>set ins. Change ch \<in> set evs \<and> operationType ch = js ''insert''))"
proof -
  let ?c0 = "snd (fst (GET w))"
  have o: "\<not> changeStream_closed ?c0" "\<not> controller_closed ?c0" "enqueued ?c0 = []"
    by (simp_all add: GET_def)
  from run_changes_open[OF o(1,2), of changes] o(3) dispatch_noninsert[of change c]
    run_enqueued[of evs c]
  show ?thesis by simp
qed

theorem only_inserts_enqueue_witness:
  "operationType \<lparr>operationType = js ''delete'', fullDocument = JUndefined\<rparr> \<noteq> js ''insert''
   \<and> dispatch (Change \<lparr>operationType = js ''delete'', fullDocument = JUndefined\<rparr>)
        open_connection = (Returned (), open_connection)
   \<and> run (map Change [\<lparr>operationType = js ''update'', fullDocument = alice_document\<rparr>,
                       \<lparr>operationType = js ''insert'', fullDocument = alice_document\<rparr>,
                       \<lparr>operationType = js ''delete'', fullDocument = JUndefined\<rparr>])
        (snd (fst (GET example_world))) =
       (snd (fst (GET example_world)))\<lparr>enqueued :=
          [TextEncoder_encode (messageString alice_document)]\<rparr>"
proof -
  have n: "js ''delete'' \<noteq> js ''insert''" "js ''update'' \<noteq> js ''insert''"
    by (simp_all add: js_def)
  from only_inserts_enqueue[of "\<lparr>operationType = js ''delete'', fullDocument = JUndefined\<rparr>"
      open_connection
      "[\<lparr>operationType = js ''update'', fullDocument = alice_document\<rparr>,
        \<lparr>operationType = js ''insert'', fullDocument = alice_document\<rparr>,
        \<lparr>operationType = js ''delete'', fullDocument = JUndefined\<rparr>]" example_world] n
  show ?thesis by (simp del: run.simps dispatch.simps)
qed

text \<open>
  C6: take the connection the handler opens and any events before the signal fires
  (change events, a cancellation of the stream). When the abort signal then fires, its
  listener closes the change stream and the controller in that one step and enqueues
  nothing; it returns normally unless the stream was cancelled before. Whatever events
  follow (change events, cancellations, further firings) leave the connection as it is, so
  nothing is enqueued any more; and the change listener, were it still called, would find
  the controller closed and enqueue nothing either.
\<close>

theorem abort_teardown:
  assumes "Abort \<notin> set evs"
  shows "(let c1 = run evs (snd (fst (GET w))); c2 = snd (dispatch Abort c1) in
            changeStream_closed c2 \<and> controller_closed c2
          \<and> enqueued c2 = enqueued c1
          \<and> run later c2 = c2
          \<and> snd (on_change change c2) = c2
          \<and> (if Cancel \<in> set evs then True else fst (dispatch Abort c1) = Returned ()))"
proof -
  let ?c0 = "snd (fst (GET w))"
  let ?c1 = "run evs ?c0"
  let ?c2 = "snd (dispatch Abort ?c1)"
  have "\<not> signal_aborted ?c0" by (simp add: GET_def)
  with run_signal[OF assms, of ?c0] have s: "\<not> signal_aborted ?c1" by simp
  note a = dispatch_Abort[OF s]
  have l: "run later ?c2 = ?c2" using a(1,2,3) by (rule run_torn_down)
  have h: "snd (on_change change ?c2) = ?c2" using a(2) by (rule on_change_closed)
  have r: "fst (dispatch Abort ?c1) = Returned ()" if "Cancel \<notin> set evs"
  proof -
    from assms that obtain changes where "evs = map Change changes"
      using only_changes by blast
    moreover have "\<not> changeStream_closed ?c0" "\<not> controller_closed ?c0"
      by (simp_all add: GET_def)
    ultimately have "\<not> controller_closed ?c1" by (simp add: run_changes_open)
    then show ?thesis by (rule a(5))
  qed
  from a(1,2,4) l h r show ?thesis unfolding Let_def by simp
qed

theorem abort_teardown_witness:
  "Abort \<notin> set [Change \<lparr>operationType = js ''insert'', fullDocument = alice_document\<rparr>, Cancel]
   \<and> (let c1 = run [Change \<lparr>operationType = js ''insert'', fullDocument = alice_document\<rparr>,
                     Cancel] (snd (fst (GET example_world)));
           c2 = snd (dispatch Abort c1) in
         changeStream_closed c2 \<and> controller_closed c2
       \<and> enqueued c2 = enqueued c1
       \<and> run [Change \<lparr>operationType = js ''insert'', fullDocument = alice_document\<rparr>, Abort,
               Cancel] c2 = c2
       \<and> snd (on_change \<lparr>operationType = js ''insert'', fullDocument = alice_document\<rparr> c2) = c2)"
proof -
  have a: "Abort \<notin> set [Change \<lparr>operationType = js ''insert'', fullDocument = alice_document\<rparr>,
      Cancel]"
    by simp
  from abort_teardown[OF a, of example_world
      "[Change \<lparr>operationType = js ''insert'', fullDocument = alice_document\<rparr>, Abort, Cancel]"
      "\<lparr>operationType = js ''insert'', fullDocument = alice_document\<rparr>"] a
  show ?thesis unfolding Let_def by (simp del: run.simps dispatch.simps)
qed


lemma keys_not_index [simp]:
  "array_index (js ''_id'') = None" "array_index (js ''username'') = None"
  "array_index (js ''content'') = None" "array_index (js ''createdAt'') = None"
  "array_index (js ''updatedAt'') = None" "array_index (js ''__v'') = None"
  by (simp_all add: array_index_def is_digit_def js_def)

lemma keys_quoted:
  "QuoteJSONString (js ''_id'') @ js '':'' @ x = js ''\"_id\":'' @ x"
  "QuoteJSONString (js ''username'') @ js '':'' @ x = js ''\"username\":'' @ x"
  "QuoteJSONString (js ''content'') @ js '':'' @ x = js ''\"content\":'' @ x"
  "QuoteJSONString (js ''createdAt'') @ js '':'' @ x = js ''\"createdAt\":'' @ x"
  "QuoteJSONString (js ''updatedAt'') @ js '':'' @ x = js ''\"updatedAt\":'' @ x"
  "QuoteJSONString (js ''__v'') @ js '':'' @ x = js ''\"__v\":'' @ x"
  by (simp_all add: js_def QuoteJSONString_def quote_unit_def is_high_surrogate_def
      is_low_surrogate_def)

text \<open>
  The members of the JSON text of a six-field message: none of the six names is an array
  index, so the members come in the order of the fields.
\<close>

lemma SerializeJSONObject_message:
  "map snd (EnumerableOwnProperties (SerializeJSONObject
     [(js ''_id'', JObjectId i), (js ''username'', JStr a), (js ''content'', JStr b),
      (js ''createdAt'', JDate t), (js ''updatedAt'', JDate t'), (js ''__v'', JNum NumZero)])) =
   [js ''\"_id\":'' @ QuoteJSONString i, js ''\"username\":'' @ QuoteJSONString a,
    js ''\"content\":'' @ QuoteJSONString b, js ''\"createdAt\":'' @ QuoteJSONString t,
    js ''\"updatedAt\":'' @ QuoteJSONString t', js ''\"__v\":0'']"
proof -
  have z: "js ''\"__v\":'' @ js ''0'' = js ''\"__v\":0''" by (simp add: js_def)
  show ?thesis by (simp add: EnumerableOwnProperties_def keys_quoted z)
qed

lemma stored_message_text:
  "js ''{'' @ join (js '','')
      [js ''\"_id\":'' @ QuoteJSONString i, js ''\"username\":'' @ QuoteJSONString a,
       js ''\"content\":'' @ QuoteJSONString b, js ''\"createdAt\":'' @ QuoteJSONString t,
       js ''\"updatedAt\":'' @ QuoteJSONString t', js ''\"__v\":0''] @ js ''}'' =
   js ''{\"_id\":'' @ QuoteJSONString i @ js '',\"username\":'' @ QuoteJSONString a
     @ js '',\"content\":'' @ QuoteJSONString b @ js '',\"createdAt\":'' @ QuoteJSONString t
     @ js '',\"updatedAt\":'' @ QuoteJSONString t' @ js '',\"__v\":0}''"
  by (simp add: js_def)

text \<open>
  A submission answered with status 201 was stored as the six-field document, and the
  store emitted the insertion event that carries it as stored.
\<close>

lemma POST_created:
  assumes "POST e (Some b) w = (Returned r, w')" and "status r = 201"
    and "js_get b (js ''username'') = JStr u" and "js_get b (js ''content'') = JStr cn"
  shows "change_feed w' = change_feed w @
      [\<lparr>operationType = js ''insert'',
        fullDocument = JObj [(js ''_id'', JObjectId (new_ObjectId e)),
                     (js ''username'', JStr (toWellFormed (String_trim u))),
                     (js ''content'', JStr (toWellFormed (String_trim cn))),
                     (js ''createdAt'', JDate (Date_now e)),
                     (js ''updatedAt'', JDate (Date_now e)),
                     (js ''__v'', JNum NumZero)]\<rparr>]"
proof (cases e w rule: connectDB_cases)
  case (1 w1)
  from js_get_JStr_object[OF assms(3)] have nn: "b \<noteq> JNull" "b \<noteq> JUndefined" by simp_all
  have ne: "u \<noteq> []" "cn \<noteq> []"
    using assms 1
    by (auto simp add: POST_body[OF 1(1) nn] NextResponse_json_def simp del: js_get.simps
          split: if_splits)
  show ?thesis
    using assms 1 ne
    by (auto simp add: POST_body[OF 1(1) nn] Message_create_strings Let_def
          simp del: js_get.simps split: if_splits)
next
  case (2 w1)
  with assms show ?thesis by (simp add: POST_Exited[OF 2(1)])
qed

text \<open>
  C1, as the code has it: for every insertion event that reaches an open connection and
  carries a document, the frame enqueued is the bytes of \<open>data: \<close>, then the bytes of
  the JSON text of the whole document (one member for each property of the document
  that is not \<open>undefined\<close>, under its name, as JavaScript enumerates the properties:
  those whose names are array indices first, in ascending order, then the others in the
  order of their creation), then the bytes of two newlines. For every submission with
  string fields that the submission endpoint answers with status 201, the store emits one
  insertion event, and the frame enqueued for it has the six members \<open>_id\<close>,
  \<open>username\<close>, \<open>content\<close>, \<open>createdAt\<close>, \<open>updatedAt\<close> and \<open>__v\<close>, where
  \<open>username\<close> and \<open>content\<close> are the submitted strings, trimmed, as the store holds
  them (with U+FFFD for an unpaired surrogate).
\<close>

theorem insert_frame:
  assumes "\<not> changeStream_closed c" and "\<not> controller_closed c"
  shows "(operationType change = js ''insert'' \<and> fullDocument change = JObj props
        \<and> distinct (map fst props) \<longrightarrow>
      dispatch (Change change) c =
        (Returned (), c\<lparr>enqueued := enqueued c @
          [TextEncoder_encode (js ''data: '')
           @ TextEncoder_encode
               (js ''{''
                @ join (js '','') (map snd (EnumerableOwnProperties (SerializeJSONObject props)))
                @ js ''}'')
           @ TextEncoder_encode (js ''\<newline>\<newline>'')]\<rparr>))
   \<and> (POST e (Some b) w = (Returned r, w') \<and> status r = 201
        \<and> js_get b (js ''username'') = JStr u \<and> js_get b (js ''content'') = JStr cn \<longrightarrow>
      (\<exists>ev. change_feed w' = change_feed w @ [ev]
         \<and> dispatch (Change ev) c =
             (Returned (), c\<lparr>enqueued := enqueued c @
               [TextEncoder_encode (js ''data: '')
                @ TextEncoder_encode
                    (js ''{\"_id\":'' @ QuoteJSONString (new_ObjectId e)
                     @ js '',\"username\":'' @ QuoteJSONString (toWellFormed (String_trim u))
                     @ js '',\"content\":'' @ QuoteJSONString (toWellFormed (String_trim cn))
                     @ js '',\"createdAt\":'' @ QuoteJSONString (Date_now e)
                     @ js '',\"updatedAt\":'' @ QuoteJSONString (Date_now e)
                     @ js '',\"__v\":0}'')
                @ TextEncoder_encode (js ''\<newline>\<newline>'')]\<rparr>)))"
proof -
  have general: "dispatch (Change ch) c =
        (Returned (), c\<lparr>enqueued := enqueued c @
          [TextEncoder_encode (js ''data: '')
           @ TextEncoder_encode
               (js ''{''
                @ join (js '','') (map snd (EnumerableOwnProperties (SerializeJSONObject ps)))
                @ js ''}'')
           @ TextEncoder_encode (js ''\<newline>\<newline>'')]\<rparr>)"
    if "operationType ch = js ''insert''" and "fullDocument ch = JObj ps" for ch ps
    unfolding dispatch_insert_open[OF that(1) assms] messageString_bytes that(2)
    by (simp add: JSON_stringify_def template_hole_def)
  have created: "\<exists>ev. change_feed w' = change_feed w @ [ev]
         \<and> dispatch (Change ev) c =
             (Returned (), c\<lparr>enqueued := enqueued c @
               [TextEncoder_encode (js ''data: '')
                @ TextEncoder_encode
                    (js ''{\"_id\":'' @ QuoteJSONString (new_ObjectId e)
                     @ js '',\"username\":'' @ QuoteJSONString (toWellFormed (String_trim u))
                     @ js '',\"content\":'' @ QuoteJSONString (toWellFormed (String_trim cn))
                     @ js '',\"createdAt\":'' @ QuoteJSONString (Date_now e)
                     @ js '',\"updatedAt\":'' @ QuoteJSONString (Date_now e)
                     @ js '',\"__v\":0}'')
                @ TextEncoder_encode (js ''\<newline>\<newline>'')]\<rparr>)"
    if p: "POST e (Some b) w = (Returned r, w')" "status r = 201"
      "js_get b (js ''username'') = JStr u" "js_get b (js ''content'') = JStr cn"
  proof -
    let ?props = "[(js ''_id'', JObjectId (new_ObjectId e)),
                     (js ''username'', JStr (toWellFormed (String_trim u))),
                     (js ''content'', JStr (toWellFormed (String_trim cn))),
                     (js ''createdAt'', JDate (Date_now e)),
                     (js ''updatedAt'', JDate (Date_now e)),
                     (js ''__v'', JNum NumZero)]"
    let ?ev = "\<lparr>operationType = js ''insert'', fullDocument = JObj ?props\<rparr>"
    have f: "change_feed w' = change_feed w @ [?ev]" using p by (rule POST_created)
    have "operationType ?ev = js ''insert''" "fullDocument ?ev = JObj ?props" by simp_all
    from general[OF this]
    have "dispatch (Change ?ev) c =
        (Returned (), c\<lparr>enqueued := enqueued c @
          [TextEncoder_encode (js ''data: '')
           @ TextEncoder_encode
               (js ''{''
                @ join (js '','') (map snd (EnumerableOwnProperties (SerializeJSONObject ?props)))
                @ js ''}'')
           @ TextEncoder_encode (js ''\<newline>\<newline>'')]\<rparr>)" .
    then have "dispatch (Change ?ev) c =
             (Returned (), c\<lparr>enqueued := enqueued c @
               [TextEncoder_encode (js ''data: '')
                @ TextEncoder_encode
                    (js ''{\"_id\":'' @ QuoteJSONString (new_ObjectId e)
                     @ js '',\"username\":'' @ QuoteJSONString (toWellFormed (String_trim u))
                     @ js '',\"content\":'' @ QuoteJSONString (toWellFormed (String_trim cn))
                     @ js '',\"createdAt\":'' @ QuoteJSONString (Date_now e)
                     @ js '',\"updatedAt\":'' @ QuoteJSONString (Date_now e)
                     @ js '',\"__v\":0}'')
                @ TextEncoder_encode (js ''\<newline>\<newline>'')]\<rparr>)"
      unfolding SerializeJSONObject_message stored_message_text .
    with f show ?thesis by blast
  qed
  from general created show ?thesis by blast
qed

lemma POST_alice:
  "POST example_env
     (Some (JObj [(js ''username'', JStr (js ''alice'')), (js ''content'', JStr (js ''hello''))]))
     example_world =
     (Returned \<lparr>status = 201,
                headers = [(js ''content-type'', js ''application/json'')],
                body = Json (JObj [(js ''success'', JBool True),
                         (js ''messageId'', JObjectId (js ''64b7f3a2c9e1d4a5b6c7d8e9''))])\<rparr>,
      connected_world\<lparr>collection := [alice_document],
        change_feed := [\<lparr>operationType = js ''insert'', fullDocument = alice_document\<rparr>]\<rparr>)"
proof -
  have t: "String_trim (js ''alice'') = js ''alice''" "String_trim (js ''hello'') = js ''hello''"
    by (simp_all add: String_trim_def is_js_space_def js_def)
  have f: "toWellFormed (js ''alice'') = js ''alice''" "toWellFormed (js ''hello'') = js ''hello''"
    by (simp_all add: js_def is_high_surrogate_def is_low_surrogate_def)
  have n: "insert_ok example_env"
    "new_ObjectId example_env = js ''64b7f3a2c9e1d4a5b6c7d8e9''"
    "Date_now example_env = js ''2024-01-01T00:00:00.000Z''"
    by (simp_all add: example_env_def)
  show ?thesis
    by (simp add: POST_body[OF connectDB_example] Message_create_strings t f n
          saved_document_get alice_document_def NextResponse_json_def Let_def)
       (simp add: connected_world_def)
qed

lemma messageString_alice:
  "messageString alice_document =
     js ''data: {\"_id\":\"64b7f3a2c9e1d4a5b6c7d8e9\",\"username\":\"alice\",\"content\":\"hello\",\"createdAt\":\"2024-01-01T00:00:00.000Z\",\"updatedAt\":\"2024-01-01T00:00:00.000Z\",\"__v\":0}\<newline>\<newline>''"
proof -
  have "messageString alice_document =
      js ''data: '' @ (js ''{'' @ join (js '','') (map snd (EnumerableOwnProperties
        (SerializeJSONObject
          [(js ''_id'', JObjectId (js ''64b7f3a2c9e1d4a5b6c7d8e9'')),
           (js ''username'', JStr (js ''alice'')),
           (js ''content'', JStr (js ''hello'')),
           (js ''createdAt'', JDate (js ''2024-01-01T00:00:00.000Z'')),
           (js ''updatedAt'', JDate (js ''2024-01-01T00:00:00.000Z'')),
           (js ''__v'', JNum NumZero)]))) @ js ''}'') @ js ''\<newline>\<newline>''"
    by (simp add: messageString_def JSON_stringify_def template_hole_def alice_document_def
        del: SerializeJSONObject.simps)
  then show ?thesis
    unfolding SerializeJSONObject_message stored_message_text
    by (simp add: js_def QuoteJSONString_def quote_unit_def is_high_surrogate_def
        is_low_surrogate_def)
qed

lemma alice_frame_parts:
  "TextEncoder_encode (js ''data: '')
   @ TextEncoder_encode
       (js ''{\"_id\":'' @ QuoteJSONString (js ''64b7f3a2c9e1d4a5b6c7d8e9'')
        @ js '',\"username\":'' @ QuoteJSONString (js ''alice'')
        @ js '',\"content\":'' @ QuoteJSONString (js ''hello'')
        @ js '',\"createdAt\":'' @ QuoteJSONString (js ''2024-01-01T00:00:00.000Z'')
        @ js '',\"updatedAt\":'' @ QuoteJSONString (js ''2024-01-01T00:00:00.000Z'')
        @ js '',\"__v\":0}'')
   @ TextEncoder_encode (js ''\<newline>\<newline>'') = alice_frame"
  by (simp add: alice_frame_def js_def QuoteJSONString_def quote_unit_def
      is_high_surrogate_def is_low_surrogate_def scalar_value_def utf8_code_point_def)

theorem insert_frame_witness:
  "\<not> changeStream_closed open_connection \<and> \<not> controller_closed open_connection
   \<and> operationType \<lparr>operationType = js ''insert'', fullDocument = alice_document\<rparr>
        = js ''insert''
   \<and> dispatch (Change \<lparr>operationType = js ''insert'', fullDocument = alice_document\<rparr>)
        open_connection =
       (Returned (), open_connection\<lparr>enqueued := enqueued open_connection @ [alice_frame]\<rparr>)
   \<and> status (\<lparr>status = 201,
                headers = [(js ''content-type'', js ''application/json'')],
                body = Json (JObj [(js ''success'', JBool True),
                         (js ''messageId'', JObjectId (js ''64b7f3a2c9e1d4a5b6c7d8e9''))])\<rparr>) = 201
   \<and> (\<exists>ev. change_feed (snd (POST example_env
          (Some (JObj [(js ''username'', JStr (js ''alice'')),
                       (js ''content'', JStr (js ''hello''))])) example_world))
        = change_feed example_world @ [ev]
      \<and> dispatch (Change ev) open_connection =
          (Returned (), open_connection\<lparr>enqueued := enqueued open_connection @ [alice_frame]\<rparr>))"
proof -
  let ?b = "JObj [(js ''username'', JStr (js ''alice'')), (js ''content'', JStr (js ''hello''))]"
  let ?r = "\<lparr>status = 201,
                headers = [(js ''content-type'', js ''application/json'')],
                body = Json (JObj [(js ''success'', JBool True),
                         (js ''messageId'', JObjectId (js ''64b7f3a2c9e1d4a5b6c7d8e9''))])\<rparr>"
  let ?w = "connected_world\<lparr>collection := [alice_document],
        change_feed := [\<lparr>operationType = js ''insert'', fullDocument = alice_document\<rparr>]\<rparr>"
  let ?ev = "\<lparr>operationType = js ''insert'', fullDocument = alice_document\<rparr>"
  let ?props = "[(js ''_id'', JObjectId (js ''64b7f3a2c9e1d4a5b6c7d8e9'')),
           (js ''username'', JStr (js ''alice'')),
           (js ''content'', JStr (js ''hello'')),
           (js ''createdAt'', JDate (js ''2024-01-01T00:00:00.000Z'')),
           (js ''updatedAt'', JDate (js ''2024-01-01T00:00:00.000Z'')),
           (js ''__v'', JNum NumZero)]"
  have o: "\<not> changeStream_closed open_connection" "\<not> controller_closed open_connection"
    by (simp_all add: open_connection_def)
  have t: "String_trim (js ''alice'') = js ''alice''" "String_trim (js ''hello'') = js ''hello''"
    by (simp_all add: String_trim_def is_js_space_def js_def)
  have tw: "toWellFormed (js ''alice'') = js ''alice''"
    "toWellFormed (js ''hello'') = js ''hello''"
    by (simp_all add: js_def is_high_surrogate_def is_low_surrogate_def)
  have n: "new_ObjectId example_env = js ''64b7f3a2c9e1d4a5b6c7d8e9''"
    "Date_now example_env = js ''2024-01-01T00:00:00.000Z''"
    by (simp_all add: example_env_def)
  have g: "operationType ?ev = js ''insert'' \<and> fullDocument ?ev = JObj ?props
      \<and> distinct (map fst ?props)"
    by (simp add: alice_document_def js_def)
  have h: "POST example_env (Some ?b) example_world = (Returned ?r, ?w) \<and> status ?r = 201
      \<and> js_get ?b (js ''username'') = JStr (js ''alice'')
      \<and> js_get ?b (js ''content'') = JStr (js ''hello'')"
    using POST_alice by simp
  note f = insert_frame[OF o, of ?ev ?props example_env ?b example_world ?r ?w
      "js ''alice''" "js ''hello''"]
  from f g have 1: "dispatch (Change ?ev) open_connection =
       (Returned (), open_connection\<lparr>enqueued := enqueued open_connection @ [alice_frame]\<rparr>)"
    unfolding SerializeJSONObject_message stored_message_text alice_frame_parts by blast
  from f h have 2: "\<exists>ev. change_feed ?w = change_feed example_world @ [ev]
         \<and> dispatch (Change ev) open_connection =
             (Returned (), open_connection\<lparr>enqueued := enqueued open_connection @ [alice_frame]\<rparr>)"
    unfolding t tw n alice_frame_parts by blast
  from o 1 2 show ?thesis unfolding POST_alice by simp
qed

text \<open>
  C1 as the specification states it fails at the specification's own example. The
  submission \<open>{ username: "alice", content: "hello" }\<close> is stored and answered with
  status 201; the store emits one insertion event; a connection the streaming handler has
  opened enqueues for it the frame \<open>alice_frame\<close>, whose JSON object has the six members
  \<open>_id\<close>, \<open>username\<close>, \<open>content\<close>, \<open>createdAt\<close>, \<open>updatedAt\<close> and \<open>__v\<close>; this
  is not the four-member frame of the specification for the same identifier, fields and
  timestamp.
\<close>

theorem spec_frame_counterexample:
  "POST example_env
     (Some (JObj [(js ''username'', JStr (js ''alice'')), (js ''content'', JStr (js ''hello''))]))
     example_world =
     (Returned \<lparr>status = 201,
                headers = [(js ''content-type'', js ''application/json'')],
                body = Json (JObj [(js ''success'', JBool True),
                         (js ''messageId'', JObjectId (js ''64b7f3a2c9e1d4a5b6c7d8e9''))])\<rparr>,
      connected_world\<lparr>collection := [alice_document],
        change_feed := [\<lparr>operationType = js ''insert'', fullDocument = alice_document\<rparr>]\<rparr>)
   \<and> dispatch (Change \<lparr>operationType = js ''insert'', fullDocument = alice_document\<rparr>)
        (snd (fst (GET example_world))) =
       (Returned (), (snd (fst (GET example_world)))\<lparr>enqueued := [alice_frame]\<rparr>)
   \<and> alice_frame \<noteq>
       spec_frame (js ''64b7f3a2c9e1d4a5b6c7d8e9'') (js ''alice'') (js ''hello'')
         (js ''2024-01-01T00:00:00.000Z'')"
proof -
  have d: "dispatch (Change \<lparr>operationType = js ''insert'', fullDocument = alice_document\<rparr>)
        (snd (fst (GET example_world))) =
       (Returned (), (snd (fst (GET example_world)))\<lparr>enqueued := [alice_frame]\<rparr>)"
    by (simp add: GET_def on_change_def controller_enqueue_def messageString_alice
          alice_frame_def)
  have f: "alice_frame \<noteq>
       spec_frame (js ''64b7f3a2c9e1d4a5b6c7d8e9'') (js ''alice'') (js ''hello'')
         (js ''2024-01-01T00:00:00.000Z'')"
    by (simp add: alice_frame_def spec_frame_def js_def QuoteJSONString_def quote_unit_def
          is_high_surrogate_def is_low_surrogate_def scalar_value_def utf8_code_point_def)
  from POST_alice d f show ?thesis by (simp only: simp_thms)
qed

end
